theory Spec2Isabelle
  imports Main "HOL-Library.Signed_Division"
begin

section \<open>Data model of snake_core.h\<close>

text \<open>
  A value of the C type \<^verbatim>\<open>int\<close> is an \<^typ>\<open>int\<close> between \<open>INT_MIN\<close> and \<open>INT_MAX\<close>;
  \<^verbatim>\<open>int\<close> has 32 bits. Where the source adds to a value that no comparison bounds, which
  it does to a coordinate in \<^verbatim>\<open>get_new_position\<close> and to the score in
  \<^verbatim>\<open>update_game\<close>, the sum is written with the wrap-around of the machine's two's
  complement arithmetic (\<open>c_add\<close>, \<open>c_sub\<close>): past \<open>INT_MAX\<close> it continues at
  \<open>INT_MIN\<close>. The other sums of the source stay in range and are written as they are: a
  loop counter is below a bound it was just compared with, \<open>snake_length\<close> is below
  \<open>MAX_SNAKE_LENGTH\<close> when it is incremented and at least 1 where the statements below
  subtract 1 from it, \<open>start_x - i\<close> is within 2 of half a dimension, and in
  \<^verbatim>\<open>get_random(0, width - 1)\<close> the divisor \<open>max - min + 1\<close> is the width again.
  Division follows C: the quotient truncates towards zero (\<open>sdiv\<close>), the
  remainder takes the sign of the dividend (\<open>smod\<close>).

  Two things the C program can do that a total HOL function cannot are written out as
  faults: a remainder by zero, and an access to the segment array outside its bounds.
\<close>

datatype fault = DivisionByZero | OutOfBounds

datatype Direction = UP | RIGHT | DOWN | LEFT

record Point =
  x :: int
  y :: int

text \<open>
  \<^verbatim>\<open>SnakeSegment\<close> is a struct whose only member is \<^verbatim>\<open>position\<close>; a segment is
  identified with that point.
\<close>

type_synonym SnakeSegment = Point

record Food =
  position :: Point
  "value" :: int

text \<open>
  The array \<^verbatim>\<open>snake[MAX_SNAKE_LENGTH]\<close> is a list; its length is the capacity of the
  array, which is \<open>MAX_SNAKE_LENGTH\<close> in every \<^verbatim>\<open>GameState\<close> object of the C program.
\<close>

record GameState =
  width :: int
  height :: int
  snake :: "SnakeSegment list"
  snake_length :: int
  direction :: Direction
  food :: Food
  score :: int
  game_over :: bool

definition MAX_SNAKE_LENGTH :: int where
  "MAX_SNAKE_LENGTH = 100"

definition INITIAL_SNAKE_LENGTH :: int where
  "INITIAL_SNAKE_LENGTH = 3"

definition MAX_ATTEMPTS :: nat where
  "MAX_ATTEMPTS = 100"

section \<open>C primitives\<close>

definition INT_MAX :: int where
  "INT_MAX = 2147483647"

definition INT_MIN :: int where
  "INT_MIN = - 2147483648"

text \<open>The value that a 32-bit two's complement register holds after a sum \<open>v\<close>.\<close>

definition wrap_int :: "int \<Rightarrow> int" where
  "wrap_int v = (v + 2147483648) mod 4294967296 - 2147483648"

text \<open>The operators \<^verbatim>\<open>+\<close> and \<^verbatim>\<open>-\<close> on \<^verbatim>\<open>int\<close>.\<close>

definition c_add :: "int \<Rightarrow> int \<Rightarrow> int" where
  "c_add a b = wrap_int (a + b)"

definition c_sub :: "int \<Rightarrow> int \<Rightarrow> int" where
  "c_sub a b = wrap_int (a - b)"

text \<open>The operator \<^verbatim>\<open>%\<close>: undefined for a zero divisor.\<close>

definition c_rem :: "int \<Rightarrow> int \<Rightarrow> fault + int" where
  "c_rem a b = (if b = 0 then Inl DivisionByZero else Inr (a smod b))"

text \<open>Reading and writing \<^verbatim>\<open>a[i]\<close>, with the bounds of the array checked.\<close>

definition arr_read :: "'a list \<Rightarrow> int \<Rightarrow> fault + 'a" where
  "arr_read a i = (if 0 \<le> i \<and> i < int (length a) then Inr (a ! nat i) else Inl OutOfBounds)"

definition arr_write :: "'a list \<Rightarrow> int \<Rightarrow> 'a \<Rightarrow> fault + 'a list" where
  "arr_write a i v =
     (if 0 \<le> i \<and> i < int (length a) then Inr (a[nat i := v]) else Inl OutOfBounds)"

section \<open>The functions of snake_core.c\<close>

text \<open>
  \<^verbatim>\<open>rand()\<close> is an input of the model: a function that takes the random source has a
  parameter \<open>rs\<close>, and \<open>rs k\<close> is the value of the \<open>k\<close>-th call of \<^verbatim>\<open>rand()\<close> that it
  makes (a natural number, as \<^verbatim>\<open>rand()\<close> is never negative). Seeding
  (\<^verbatim>\<open>init_random\<close>) only chooses that sequence, so it has no counterpart here.
\<close>

definition get_random :: "nat \<Rightarrow> int \<Rightarrow> int \<Rightarrow> fault + int" where
  "get_random r lo hi =
     (case c_rem (int r) (hi - lo + 1) of
        Inl e \<Rightarrow> Inl e
      | Inr m \<Rightarrow> Inr (lo + m))"

fun get_new_position :: "Point \<Rightarrow> Direction \<Rightarrow> int \<Rightarrow> int \<Rightarrow> fault + Point" where
  "get_new_position current UP w h =
     (case c_rem (c_add (c_sub (y current) 1) h) h of
        Inl e \<Rightarrow> Inl e
      | Inr v \<Rightarrow> Inr (current\<lparr>y := v\<rparr>))"
| "get_new_position current RIGHT w h =
     (case c_rem (c_add (x current) 1) w of
        Inl e \<Rightarrow> Inl e
      | Inr v \<Rightarrow> Inr (current\<lparr>x := v\<rparr>))"
| "get_new_position current DOWN w h =
     (case c_rem (c_add (y current) 1) h of
        Inl e \<Rightarrow> Inl e
      | Inr v \<Rightarrow> Inr (current\<lparr>y := v\<rparr>))"
| "get_new_position current LEFT w h =
     (case c_rem (c_add (c_sub (x current) 1) w) w of
        Inl e \<Rightarrow> Inl e
      | Inr v \<Rightarrow> Inr (current\<lparr>x := v\<rparr>))"

text \<open>
  The loop \<^verbatim>\<open>for (i = i0; i < game->snake_length; i++)\<close> that compares \<^verbatim>\<open>snake[i]\<close>
  with a position and stops at the first match. \<^verbatim>\<open>check_self_collision\<close> runs it
  from 1, the two occupancy tests of \<^verbatim>\<open>spawn_food\<close> run it from 0.
\<close>

function segment_scan :: "GameState \<Rightarrow> Point \<Rightarrow> int \<Rightarrow> fault + bool" where
  "segment_scan g pos i =
     (if i < snake_length g then
        (case arr_read (snake g) i of
           Inl e \<Rightarrow> Inl e
         | Inr s \<Rightarrow>
             if x s = x pos \<and> y s = y pos then Inr True
             else segment_scan g pos (i + 1))
      else Inr False)"
  by pat_completeness auto
termination
  by (relation "measure (\<lambda>(g, pos, i). nat (snake_length g - i))") auto

definition check_self_collision :: "GameState option \<Rightarrow> Point \<Rightarrow> fault + bool" where
  "check_self_collision game pos =
     (case game of
        None \<Rightarrow> Inr False
      | Some g \<Rightarrow> segment_scan g pos 1)"

definition is_food_position :: "GameState option \<Rightarrow> Point \<Rightarrow> bool" where
  "is_food_position game pos =
     (case game of
        None \<Rightarrow> False
      | Some g \<Rightarrow> x (position (food g)) = x pos \<and> y (position (food g)) = y pos)"

text \<open>
  The \<^verbatim>\<open>while\<close> loop of \<^verbatim>\<open>spawn_food\<close>: attempt number \<open>attempts\<close> draws its two
  coordinates from \<open>rs (2 * attempts)\<close> and \<open>rs (2 * attempts + 1)\<close>. The result is the
  accepted candidate, or \<open>None\<close> when \<^verbatim>\<open>valid_position\<close> is still false after
  \<open>MAX_ATTEMPTS\<close> attempts.
\<close>

function spawn_attempts :: "(nat \<Rightarrow> nat) \<Rightarrow> GameState \<Rightarrow> nat \<Rightarrow> fault + Point option" where
  "spawn_attempts rs g attempts =
     (if attempts < MAX_ATTEMPTS then
        (case get_random (rs (2 * attempts)) 0 (width g - 1) of
           Inl e \<Rightarrow> Inl e
         | Inr px \<Rightarrow>
            (case get_random (rs (2 * attempts + 1)) 0 (height g - 1) of
               Inl e \<Rightarrow> Inl e
             | Inr py \<Rightarrow>
                (case segment_scan g \<lparr>x = px, y = py\<rparr> 0 of
                   Inl e \<Rightarrow> Inl e
                 | Inr hit \<Rightarrow>
                     if hit then spawn_attempts rs g (attempts + 1)
                     else Inr (Some \<lparr>x = px, y = py\<rparr>))))
      else Inr None)"
  by pat_completeness auto
termination
  by (relation "measure (\<lambda>(rs, g, attempts). MAX_ATTEMPTS - attempts)") auto

text \<open>The fallback: the inner loop over \<open>x\<close> and the outer loop over \<open>y\<close>.\<close>

function scan_row :: "GameState \<Rightarrow> int \<Rightarrow> int \<Rightarrow> fault + Point option" where
  "scan_row g cy cx =
     (if cx < width g then
        (case segment_scan g \<lparr>x = cx, y = cy\<rparr> 0 of
           Inl e \<Rightarrow> Inl e
         | Inr hit \<Rightarrow>
             if hit then scan_row g cy (cx + 1)
             else Inr (Some \<lparr>x = cx, y = cy\<rparr>))
      else Inr None)"
  by pat_completeness auto
termination
  by (relation "measure (\<lambda>(g, cy, cx). nat (width g - cx))") auto

function scan_grid :: "GameState \<Rightarrow> int \<Rightarrow> fault + Point option" where
  "scan_grid g cy =
     (if cy < height g then
        (case scan_row g cy 0 of
           Inl e \<Rightarrow> Inl e
         | Inr (Some p) \<Rightarrow> Inr (Some p)
         | Inr None \<Rightarrow> scan_grid g (cy + 1))
      else Inr None)"
  by pat_completeness auto
termination
  by (relation "measure (\<lambda>(g, cy). nat (height g - cy))") auto

definition spawn_food :: "(nat \<Rightarrow> nat) \<Rightarrow> GameState option \<Rightarrow> fault + GameState option" where
  "spawn_food rs game =
     (case game of
        None \<Rightarrow> Inr None
      | Some g \<Rightarrow>
         (case spawn_attempts rs g 0 of
            Inl e \<Rightarrow> Inl e
          | Inr (Some p) \<Rightarrow> Inr (Some (g\<lparr>food := \<lparr>position = p, value = 10\<rparr>\<rparr>))
          | Inr None \<Rightarrow>
             (case scan_grid g 0 of
                Inl e \<Rightarrow> Inl e
              | Inr (Some p) \<Rightarrow> Inr (Some (g\<lparr>food := \<lparr>position = p, value = 10\<rparr>\<rparr>))
              | Inr None \<Rightarrow> Inr (Some g))))"

text \<open>The loop of \<^verbatim>\<open>initialize_game\<close> that writes the segments.\<close>

function init_segments :: "SnakeSegment list \<Rightarrow> int \<Rightarrow> int \<Rightarrow> int \<Rightarrow> int \<Rightarrow> fault + SnakeSegment list" where
  "init_segments a start_x start_y n i =
     (if i < n then
        (case arr_write a i \<lparr>x = start_x - i, y = start_y\<rparr> of
           Inl e \<Rightarrow> Inl e
         | Inr a' \<Rightarrow> init_segments a' start_x start_y n (i + 1))
      else Inr a)"
  by pat_completeness auto
termination
  by (relation "measure (\<lambda>(a, start_x, start_y, n, i). nat (n - i))") auto

definition initialize_game ::
  "(nat \<Rightarrow> nat) \<Rightarrow> GameState option \<Rightarrow> int \<Rightarrow> int \<Rightarrow> fault + GameState option" where
  "initialize_game rs game w h =
     (case game of
        None \<Rightarrow> Inr None
      | Some g \<Rightarrow>
         (let g1 = g\<lparr>width := w, height := h, snake_length := INITIAL_SNAKE_LENGTH,
                     direction := RIGHT, score := 0, game_over := False\<rparr>;
              start_x = w sdiv 2;
              start_y = h sdiv 2
          in case init_segments (snake g1) start_x start_y (snake_length g1) 0 of
               Inl e \<Rightarrow> Inl e
             | Inr a \<Rightarrow> spawn_food rs (Some (g1\<lparr>snake := a\<rparr>))))"

text \<open>The loop of \<^verbatim>\<open>update_game\<close> that moves the body, from the tail to the head.\<close>

function shift_body :: "SnakeSegment list \<Rightarrow> int \<Rightarrow> fault + SnakeSegment list" where
  "shift_body a i =
     (if i > 0 then
        (case arr_read a (i - 1) of
           Inl e \<Rightarrow> Inl e
         | Inr v \<Rightarrow>
            (case arr_write a i v of
               Inl e \<Rightarrow> Inl e
             | Inr a' \<Rightarrow> shift_body a' (i - 1)))
      else Inr a)"
  by pat_completeness auto
termination
  by (relation "measure (\<lambda>(a, i). nat i)") auto

text \<open>
  \<^verbatim>\<open>update_game\<close> returns its boolean together with the object behind the pointer.
\<close>

definition update_game ::
  "(nat \<Rightarrow> nat) \<Rightarrow> GameState option \<Rightarrow> fault + (bool \<times> GameState option)" where
  "update_game rs game =
     (case game of
        None \<Rightarrow> Inr (False, None)
      | Some g \<Rightarrow>
         if game_over g then Inr (False, Some g)
         else
          (case arr_read (snake g) 0 of
             Inl e \<Rightarrow> Inl e
           | Inr head \<Rightarrow>
              (case get_new_position head (direction g) (width g) (height g) of
                 Inl e \<Rightarrow> Inl e
               | Inr new_head \<Rightarrow>
                  (case check_self_collision (Some g) new_head of
                     Inl e \<Rightarrow> Inl e
                   | Inr True \<Rightarrow> Inr (True, Some (g\<lparr>game_over := True\<rparr>))
                   | Inr False \<Rightarrow>
                      (case (if is_food_position (Some g) new_head then
                               spawn_food rs
                                 (Some (g\<lparr>snake_length :=
                                            (if snake_length g < MAX_SNAKE_LENGTH
                                             then snake_length g + 1 else snake_length g),
                                          score := c_add (score g) (value (food g))\<rparr>))
                             else Inr (Some g)) of
                         Inl e \<Rightarrow> Inl e
                       | Inr None \<Rightarrow> Inr (True, None)
                       | Inr (Some g2) \<Rightarrow>
                          (case shift_body (snake g2) (snake_length g2 - 1) of
                             Inl e \<Rightarrow> Inl e
                           | Inr a \<Rightarrow>
                              (case arr_write a 0 new_head of
                                 Inl e \<Rightarrow> Inl e
                               | Inr a' \<Rightarrow> Inr (True, Some (g2\<lparr>snake := a'\<rparr>)))))))))"

definition set_direction :: "GameState option \<Rightarrow> Direction \<Rightarrow> GameState option" where
  "set_direction game new_direction =
     (case game of
        None \<Rightarrow> None
      | Some g \<Rightarrow>
         if (direction g = UP \<and> new_direction = DOWN) \<or>
            (direction g = DOWN \<and> new_direction = UP) \<or>
            (direction g = LEFT \<and> new_direction = RIGHT) \<or>
            (direction g = RIGHT \<and> new_direction = LEFT)
         then Some g
         else Some (g\<lparr>direction := new_direction\<rparr>))"

definition get_snake_segment :: "GameState option \<Rightarrow> int \<Rightarrow> fault + Point" where
  "get_snake_segment game index =
     (case game of
        None \<Rightarrow> Inr \<lparr>x = -1, y = -1\<rparr>
      | Some g \<Rightarrow>
         if index < 0 \<or> index \<ge> snake_length g then Inr \<lparr>x = -1, y = -1\<rparr>
         else arr_read (snake g) index)"

definition get_food_position :: "GameState option \<Rightarrow> Point" where
  "get_food_position game =
     (case game of
        None \<Rightarrow> \<lparr>x = -1, y = -1\<rparr>
      | Some g \<Rightarrow> position (food g))"

definition get_score :: "GameState option \<Rightarrow> int" where
  "get_score game = (case game of None \<Rightarrow> 0 | Some g \<Rightarrow> score g)"

definition is_game_over :: "GameState option \<Rightarrow> bool" where
  "is_game_over game = (case game of None \<Rightarrow> True | Some g \<Rightarrow> game_over g)"

definition reset_game :: "(nat \<Rightarrow> nat) \<Rightarrow> GameState option \<Rightarrow> fault + GameState option" where
  "reset_game rs game =
     (case game of
        None \<Rightarrow> Inr None
      | Some g \<Rightarrow> initialize_game rs (Some g) (width g) (height g))"

section \<open>Notions of the specification\<close>

text \<open>
  The live part of the array: the segments at the indices below \<open>snake_length\<close>.
\<close>

definition segments :: "GameState \<Rightarrow> SnakeSegment list" where
  "segments g = take (nat (snake_length g)) (snake g)"

text \<open>
  The 180-degree opposite of a direction: Up and Down, Left and Right.
\<close>

fun opposite :: "Direction \<Rightarrow> Direction" where
  "opposite UP = DOWN"
| "opposite DOWN = UP"
| "opposite LEFT = RIGHT"
| "opposite RIGHT = LEFT"

text \<open>
  The food placement as the specification words it: the first free candidate among
  \<open>MAX_ATTEMPTS\<close> random positions of the grid, otherwise the first free cell of the grid
  in row-major order, otherwise no change.
\<close>

definition free_cell :: "GameState \<Rightarrow> Point \<Rightarrow> bool" where
  "free_cell g p = (p \<notin> set (segments g))"

definition random_candidate :: "(nat \<Rightarrow> nat) \<Rightarrow> GameState \<Rightarrow> nat \<Rightarrow> Point" where
  "random_candidate rs g k =
     \<lparr>x = int (rs (2 * k)) mod width g, y = int (rs (2 * k + 1)) mod height g\<rparr>"

definition grid_row :: "GameState \<Rightarrow> int \<Rightarrow> Point list" where
  "grid_row g cy = map (\<lambda>cx. \<lparr>x = cx, y = cy\<rparr>) [0..width g - 1]"

definition row_major :: "GameState \<Rightarrow> Point list" where
  "row_major g = concat (map (grid_row g) [0..height g - 1])"

definition place_food :: "GameState \<Rightarrow> Point \<Rightarrow> GameState" where
  "place_food g p = g\<lparr>food := \<lparr>position = p, value = 10\<rparr>\<rparr>"

definition spawn_food_spec :: "(nat \<Rightarrow> nat) \<Rightarrow> GameState \<Rightarrow> GameState" where
  "spawn_food_spec rs g =
     (case List.find (free_cell g) (map (random_candidate rs g) [0..<MAX_ATTEMPTS]) of
        Some p \<Rightarrow> place_food g p
      | None \<Rightarrow>
         (case List.find (free_cell g) (row_major g) of
            Some p \<Rightarrow> place_food g p
          | None \<Rightarrow> g))"

text \<open>
  The state in which \<^verbatim>\<open>update_game\<close> calls \<^verbatim>\<open>spawn_food\<close> after the head has
  reached the food: the length has grown unless it is at the cap, the score has the food's
  value added (as the machine adds), and the segments are still where they were.
\<close>

definition eaten_state :: "GameState \<Rightarrow> GameState" where
  "eaten_state g =
     g\<lparr>snake_length := (if snake_length g < MAX_SNAKE_LENGTH then snake_length g + 1
                         else snake_length g),
       score := c_add (score g) (value (food g))\<rparr>"

text \<open>
  A sequence of calls of \<^verbatim>\<open>update_game\<close>, each with the random draws it would see; the
  boolean results are dropped.
\<close>

fun update_seq :: "(nat \<Rightarrow> nat) list \<Rightarrow> GameState option \<Rightarrow> fault + GameState option" where
  "update_seq [] game = Inr game"
| "update_seq (rs # rss) game =
     (case update_game rs game of
        Inl e \<Rightarrow> Inl e
      | Inr (changed, game') \<Rightarrow> update_seq rss game')"

text \<open>
  The states a host can reach: \<^verbatim>\<open>initialize_game\<close> on a \<^verbatim>\<open>GameState\<close> object with
  any content and with any two \<^verbatim>\<open>int\<close> arguments, then any calls of
  \<^verbatim>\<open>update_game\<close>, \<^verbatim>\<open>set_direction\<close>, \<^verbatim>\<open>spawn_food\<close> and \<^verbatim>\<open>reset_game\<close> that
  return, with any random draws.
\<close>

inductive reachable :: "GameState \<Rightarrow> bool" where
  init: "length (snake g0) = nat MAX_SNAKE_LENGTH \<Longrightarrow>
         INT_MIN \<le> w \<Longrightarrow> w \<le> INT_MAX \<Longrightarrow> INT_MIN \<le> h \<Longrightarrow> h \<le> INT_MAX \<Longrightarrow>
         initialize_game rs (Some g0) w h = Inr (Some g) \<Longrightarrow> reachable g"
| tick: "reachable g \<Longrightarrow> update_game rs (Some g) = Inr (b, Some g') \<Longrightarrow> reachable g'"
| turn: "reachable g \<Longrightarrow> set_direction (Some g) d = Some g' \<Longrightarrow> reachable g'"
| respawn: "reachable g \<Longrightarrow> spawn_food rs (Some g) = Inr (Some g') \<Longrightarrow> reachable g'"
| reset: "reachable g \<Longrightarrow> reset_game rs (Some g) = Inr (Some g') \<Longrightarrow> reachable g'"

text \<open>
  What holds in every reachable state: the capacity of the segment array, the bounds of
  \<open>snake_length\<close>, dimensions that are \<^verbatim>\<open>int\<close> values, and, on a grid of at least two
  columns and two rows, that the live segments are on different cells.
\<close>

definition snake_inv :: "GameState \<Rightarrow> bool" where
  "snake_inv g \<longleftrightarrow>
     length (snake g) = nat MAX_SNAKE_LENGTH
     \<and> INITIAL_SNAKE_LENGTH \<le> snake_length g \<and> snake_length g \<le> MAX_SNAKE_LENGTH
     \<and> width g \<le> INT_MAX \<and> height g \<le> INT_MAX
     \<and> (2 \<le> width g \<and> 2 \<le> height g \<longrightarrow> distinct (segments g))"

text \<open>
  Concrete inputs for the examples. The random draws are 6, 5, 6, 5, ...;
  \<open>blank_state\<close> is a zeroed object; \<open>start_state\<close> is what
  \<^verbatim>\<open>initialize_game(&g, 10, 10)\<close> makes of it with these draws and \<open>fed_state\<close> what
  the next \<^verbatim>\<open>update_game\<close> makes of that; \<open>flat_state\<close> is the result of
  \<^verbatim>\<open>initialize_game(&g, 10, 1)\<close> and \<open>folded_state\<close> the state one tick after turning Up
  there; \<open>packed_state\<close> is a board of two cells, both under the snake; \<open>long_state\<close>
  is a snake of full length on a wide board, the food in front of its head;
  \<open>tiny_state\<close> is a board of four cells with a snake of three segments, the food of value
  7 in front of its head on the cell that the array slot after the tail still names, and
  \<open>tiny_after\<close> the state one tick later.
\<close>

definition ex_rs :: "nat \<Rightarrow> nat" where
  "ex_rs k = (if even k then 6 else 5)"

definition blank_state :: GameState where
  "blank_state =
     \<lparr>width = 0, height = 0, snake = replicate 100 \<lparr>x = 0, y = 0\<rparr>, snake_length = 0,
      direction = UP, food = \<lparr>position = \<lparr>x = 0, y = 0\<rparr>, value = 0\<rparr>, score = 0,
      game_over = False\<rparr>"

definition start_state :: GameState where
  "start_state =
     \<lparr>width = 10, height = 10,
      snake = [\<lparr>x = 5, y = 5\<rparr>, \<lparr>x = 4, y = 5\<rparr>, \<lparr>x = 3, y = 5\<rparr>] @ replicate 97 \<lparr>x = 0, y = 0\<rparr>,
      snake_length = 3, direction = RIGHT,
      food = \<lparr>position = \<lparr>x = 6, y = 5\<rparr>, value = 10\<rparr>, score = 0, game_over = False\<rparr>"

definition fed_state :: GameState where
  "fed_state =
     \<lparr>width = 10, height = 10,
      snake = [\<lparr>x = 6, y = 5\<rparr>, \<lparr>x = 5, y = 5\<rparr>, \<lparr>x = 4, y = 5\<rparr>, \<lparr>x = 3, y = 5\<rparr>]
                @ replicate 96 \<lparr>x = 0, y = 0\<rparr>,
      snake_length = 4, direction = RIGHT,
      food = \<lparr>position = \<lparr>x = 6, y = 5\<rparr>, value = 10\<rparr>, score = 10, game_over = False\<rparr>"

definition flat_state :: GameState where
  "flat_state =
     \<lparr>width = 10, height = 1,
      snake = [\<lparr>x = 5, y = 0\<rparr>, \<lparr>x = 4, y = 0\<rparr>, \<lparr>x = 3, y = 0\<rparr>] @ replicate 97 \<lparr>x = 0, y = 0\<rparr>,
      snake_length = 3, direction = RIGHT,
      food = \<lparr>position = \<lparr>x = 6, y = 0\<rparr>, value = 10\<rparr>, score = 0, game_over = False\<rparr>"

definition folded_state :: GameState where
  "folded_state =
     \<lparr>width = 10, height = 1,
      snake = [\<lparr>x = 5, y = 0\<rparr>, \<lparr>x = 5, y = 0\<rparr>, \<lparr>x = 4, y = 0\<rparr>] @ replicate 97 \<lparr>x = 0, y = 0\<rparr>,
      snake_length = 3, direction = UP,
      food = \<lparr>position = \<lparr>x = 6, y = 0\<rparr>, value = 10\<rparr>, score = 0, game_over = False\<rparr>"

definition packed_state :: GameState where
  "packed_state =
     \<lparr>width = 2, height = 1,
      snake = [\<lparr>x = 1, y = 0\<rparr>, \<lparr>x = 0, y = 0\<rparr>, \<lparr>x = -1, y = 0\<rparr>] @ replicate 97 \<lparr>x = 0, y = 0\<rparr>,
      snake_length = 3, direction = RIGHT,
      food = \<lparr>position = \<lparr>x = 0, y = 0\<rparr>, value = 0\<rparr>, score = 0, game_over = False\<rparr>"

definition long_state :: GameState where
  "long_state =
     \<lparr>width = 200, height = 10,
      snake = map (\<lambda>i. \<lparr>x = 150 - int i, y = 5\<rparr>) [0..<100],
      snake_length = 100, direction = RIGHT,
      food = \<lparr>position = \<lparr>x = 151, y = 5\<rparr>, value = 10\<rparr>, score = 970, game_over = False\<rparr>"

definition tiny_state :: GameState where
  "tiny_state =
     \<lparr>width = 2, height = 2,
      snake = [\<lparr>x = 0, y = 0\<rparr>, \<lparr>x = 0, y = 1\<rparr>, \<lparr>x = 1, y = 1\<rparr>, \<lparr>x = 1, y = 0\<rparr>]
                @ replicate 96 \<lparr>x = 0, y = 0\<rparr>,
      snake_length = 3, direction = RIGHT,
      food = \<lparr>position = \<lparr>x = 1, y = 0\<rparr>, value = 7\<rparr>, score = 0, game_over = False\<rparr>"

definition tiny_after :: GameState where
  "tiny_after =
     \<lparr>width = 2, height = 2,
      snake = [\<lparr>x = 1, y = 0\<rparr>, \<lparr>x = 0, y = 0\<rparr>, \<lparr>x = 0, y = 1\<rparr>, \<lparr>x = 1, y = 1\<rparr>]
                @ replicate 96 \<lparr>x = 0, y = 0\<rparr>,
      snake_length = 4, direction = RIGHT,
      food = \<lparr>position = \<lparr>x = 1, y = 0\<rparr>, value = 7\<rparr>, score = 7, game_over = False\<rparr>"

section \<open>Auxiliary facts\<close>

declare segment_scan.simps [simp del]
declare spawn_attempts.simps [simp del]
declare scan_row.simps [simp del]
declare scan_grid.simps [simp del]
declare init_segments.simps [simp del]
declare shift_body.simps [simp del]

subsection \<open>Arithmetic and the segment scan\<close>

lemma point_eq_iff: "(x (s::Point) = x p \<and> y s = y p) = (s = p)"
  by auto

lemma smod_nonneg: "0 \<le> a \<Longrightarrow> 0 < b \<Longrightarrow> (a::int) smod b = a mod b"
  by (simp add: smod_int_alt_def sgn_if)

lemma c_rem_pos: "0 \<le> a \<Longrightarrow> 0 < b \<Longrightarrow> c_rem a b = Inr (a mod b)"
  by (simp add: c_rem_def smod_nonneg)

lemma smod_step_neq:
  assumes "2 \<le> (w::int)"
  shows "(a + 1) smod w \<noteq> a" and "(a - 1 + w) smod w \<noteq> a"
proof -
  show "(a + 1) smod w \<noteq> a"
  proof
    assume "(a + 1) smod w = a"
    with smod_mult_sdiv_eq [of "a + 1" w] have "w * ((a + 1) sdiv w) = 1"
      by simp
    then have "w dvd 1" by (metis dvd_triv_left)
    with assms show False by simp
  qed
  show "(a - 1 + w) smod w \<noteq> a"
  proof
    assume "(a - 1 + w) smod w = a"
    with smod_mult_sdiv_eq [of "a - 1 + w" w] have "w * (1 - (a - 1 + w) sdiv w) = 1"
      by (simp add: algebra_simps)
    then have "w dvd 1" by (metis dvd_triv_left)
    with assms show False by simp
  qed
qed

lemma wrap_int_id: "INT_MIN \<le> v \<Longrightarrow> v \<le> INT_MAX \<Longrightarrow> wrap_int v = v"
  by (simp add: wrap_int_def INT_MIN_def INT_MAX_def mod_pos_pos_trivial)

lemma wrap_int_over:
  assumes "INT_MAX < v" and "v \<le> 2 * INT_MAX"
  shows "wrap_int v = v - 4294967296"
proof -
  have "(v + 2147483648) mod 4294967296 = (v + 2147483648 - 4294967296) mod 4294967296"
    by (simp only: minus_mod_self2)
  also have "\<dots> = v + 2147483648 - 4294967296"
    using assms by (intro mod_pos_pos_trivial) (simp_all add: INT_MAX_def)
  finally show ?thesis
    by (simp add: wrap_int_def)
qed

lemma smod_bounds:
  assumes "0 < (w::int)"
  shows "- w < a smod w" and "a smod w < w"
  using smod_int_range [where a = a and b = w] assms by auto

lemma smod_nonpos: "(t::int) < 0 \<Longrightarrow> t smod w \<le> 0"
  by (cases "w = 0") (simp_all add: smod_int_alt_def sgn_if)

lemma c_add_step_neq:
  assumes "2 \<le> w" and "w \<le> INT_MAX"
  shows "c_add a 1 smod w \<noteq> a"
proof
  assume eq: "c_add a 1 smod w = a"
  with smod_bounds [of w "c_add a 1"] assms have "- w < a" "a < w"
    by simp_all
  with assms have "c_add a 1 = a + 1"
    by (simp add: c_add_def wrap_int_id INT_MIN_def INT_MAX_def)
  with eq smod_step_neq(1) [OF assms(1), of a] show False
    by simp
qed

lemma c_sub_add_step_neq:
  assumes "2 \<le> w" and "w \<le> INT_MAX"
  shows "c_add (c_sub a 1) w smod w \<noteq> a"
proof
  assume eq: "c_add (c_sub a 1) w smod w = a"
  with smod_bounds [of w "c_add (c_sub a 1) w"] assms have a: "- w < a" "a < w"
    by simp_all
  with assms have sub: "c_sub a 1 = a - 1"
    by (simp add: c_sub_def wrap_int_id INT_MIN_def INT_MAX_def)
  show False
  proof (cases "a - 1 + w \<le> INT_MAX")
    case True
    with a assms have "c_add (a - 1) w = a - 1 + w"
      by (simp add: c_add_def wrap_int_id INT_MIN_def INT_MAX_def)
    with eq sub smod_step_neq(2) [OF assms(1), of a] show False
      by simp
  next
    case False
    with a assms have "wrap_int (a - 1 + w) = a - 1 + w - 4294967296"
      by (intro wrap_int_over) (simp_all add: INT_MAX_def)
    with a assms have "c_add (a - 1) w < 0"
      by (simp add: c_add_def INT_MAX_def)
    then have "c_add (a - 1) w smod w \<le> 0"
      by (rule smod_nonpos)
    moreover from False assms have "0 < a"
      by (simp add: INT_MAX_def)
    ultimately show False
      using eq sub by simp
  qed
qed

lemma get_new_position_neq:
  assumes "2 \<le> w" and "w \<le> INT_MAX" and "2 \<le> h" and "h \<le> INT_MAX"
    and "get_new_position p d w h = Inr q"
  shows "q \<noteq> p"
proof
  assume "q = p"
  with assms(5) have "get_new_position p d w h = Inr p" by simp
  then have "c_add (x p) 1 smod w = x p \<or> c_add (c_sub (x p) 1) w smod w = x p
      \<or> c_add (y p) 1 smod h = y p \<or> c_add (c_sub (y p) 1) h smod h = y p"
    using assms(1,3)
    by (cases d) (auto simp: c_rem_def dest: arg_cong [where f = x] arg_cong [where f = y])
  with c_add_step_neq [OF assms(1,2)] c_sub_add_step_neq [OF assms(1,2)]
    c_add_step_neq [OF assms(3,4)] c_sub_add_step_neq [OF assms(3,4)]
  show False
    by blast
qed

lemma segment_scan_hit:
  "0 \<le> i0 \<Longrightarrow> i0 \<le> i \<Longrightarrow> i < snake_length g \<Longrightarrow> i < int (length (snake g)) \<Longrightarrow>
   snake g ! nat i = pos \<Longrightarrow> segment_scan g pos i0 = Inr True"
proof (induction g pos i0 rule: segment_scan.induct)
  case (1 g pos i0)
  show ?case
  proof (cases "snake g ! nat i0 = pos")
    case True
    with "1.prems" show ?thesis
      by (simp add: segment_scan.simps [of g pos i0] arr_read_def)
  next
    case False
    with "1.prems" have ne: "i0 \<noteq> i" by auto
    have rd: "arr_read (snake g) i0 = Inr (snake g ! nat i0)"
      using "1.prems" by (simp add: arr_read_def)
    have "segment_scan g pos (i0 + 1) = Inr True"
      using "1.IH" [OF _ rd] False "1.prems" ne by (auto simp: point_eq_iff)
    with False "1.prems" rd show ?thesis
      by (simp add: segment_scan.simps [of g pos i0] point_eq_iff)
  qed
qed

lemma segment_scan_eq:
  "0 \<le> i \<Longrightarrow> snake_length g \<le> int (length (snake g)) \<Longrightarrow>
   segment_scan g pos i = Inr (pos \<in> set (drop (nat i) (segments g)))"
proof (induction g pos i rule: segment_scan.induct)
  case (1 g pos i)
  show ?case
  proof (cases "i < snake_length g")
    case False
    then show ?thesis
      by (simp add: segment_scan.simps [of g pos i] segments_def)
  next
    case True
    have rd: "arr_read (snake g) i = Inr (snake g ! nat i)"
      using "1.prems" True by (simp add: arr_read_def)
    have dr: "drop (nat i) (segments g) = snake g ! nat i # drop (nat (i + 1)) (segments g)"
    proof -
      have "nat i < length (segments g)"
        using "1.prems" True by (simp add: segments_def)
      then have "drop (nat i) (segments g) = segments g ! nat i # drop (Suc (nat i)) (segments g)"
        by (simp add: Cons_nth_drop_Suc)
      moreover have "segments g ! nat i = snake g ! nat i"
        using "1.prems" True by (simp add: segments_def)
      moreover have "Suc (nat i) = nat (i + 1)"
        using "1.prems" by simp
      ultimately show ?thesis by simp
    qed
    show ?thesis
    proof (cases "snake g ! nat i = pos")
      case True
      with \<open>i < snake_length g\<close> rd dr show ?thesis
        by (simp add: segment_scan.simps [of g pos i])
    next
      case False
      have "segment_scan g pos (i + 1) = Inr (pos \<in> set (drop (nat (i + 1)) (segments g)))"
        using "1.IH" [OF True rd] False "1.prems" by (auto simp: point_eq_iff)
      with False True rd dr show ?thesis
        by (auto simp add: segment_scan.simps [of g pos i] point_eq_iff)
    qed
  qed
qed

lemma segment_scan_free:
  "snake_length g \<le> int (length (snake g)) \<Longrightarrow>
   segment_scan g p 0 = Inr (\<not> free_cell g p)"
  using segment_scan_eq [of 0 g p] by (simp add: free_cell_def)

subsection \<open>Food placement\<close>

lemma find_append:
  "List.find P (xs @ ys) = (case List.find P xs of None \<Rightarrow> List.find P ys | Some v \<Rightarrow> Some v)"
  by (induction xs) simp_all

lemma find_SomeD: "List.find P xs = Some p \<Longrightarrow> P p \<and> p \<in> set xs"
  by (auto simp: find_Some_iff)

lemma get_random_grid: "1 \<le> n \<Longrightarrow> get_random r 0 (n - 1) = Inr (int r mod n)"
  by (simp add: get_random_def c_rem_pos)

lemma spawn_attempts_eq:
  "1 \<le> width g \<Longrightarrow> 1 \<le> height g \<Longrightarrow> snake_length g \<le> int (length (snake g)) \<Longrightarrow>
   spawn_attempts rs g k =
    Inr (List.find (free_cell g) (map (random_candidate rs g) [k..<MAX_ATTEMPTS]))"
proof (induction rs g k rule: spawn_attempts.induct)
  case (1 rs g k)
  have gx: "get_random (rs (2 * k)) 0 (width g - 1) = Inr (int (rs (2 * k)) mod width g)"
    using "1.prems" by (simp add: get_random_grid)
  have gy: "get_random (rs (2 * k + 1)) 0 (height g - 1) = Inr (int (rs (2 * k + 1)) mod height g)"
    using "1.prems" by (simp add: get_random_grid)
  have sc: "segment_scan g (random_candidate rs g k) 0 = Inr (\<not> free_cell g (random_candidate rs g k))"
    using "1.prems" by (simp add: segment_scan_free)
  have rc: "\<lparr>x = int (rs (2 * k)) mod width g, y = int (rs (Suc (2 * k))) mod height g\<rparr>
      = random_candidate rs g k"
    by (simp add: random_candidate_def)
  show ?case
  proof (cases "k < MAX_ATTEMPTS")
    case False
    then show ?thesis
      by (simp add: spawn_attempts.simps [of rs g k])
  next
    case True
    then have up: "[k..<MAX_ATTEMPTS] = k # [k + 1..<MAX_ATTEMPTS]"
      by (simp add: upt_conv_Cons)
    show ?thesis
    proof (cases "free_cell g (random_candidate rs g k)")
      case True
      with \<open>k < MAX_ATTEMPTS\<close> gx gy sc up show ?thesis
        by (simp add: spawn_attempts.simps [of rs g k] rc)
    next
      case False
      have sc': "segment_scan g
          \<lparr>x = int (rs (2 * k)) mod width g, y = int (rs (2 * k + 1)) mod height g\<rparr> 0 = Inr True"
        using sc False by (simp add: rc)
      have "spawn_attempts rs g (k + 1) =
         Inr (List.find (free_cell g) (map (random_candidate rs g) [k + 1..<MAX_ATTEMPTS]))"
        using "1.IH" [OF True gx gy sc' _ "1.prems"] by simp
      with False True gx gy sc up show ?thesis
        by (simp add: spawn_attempts.simps [of rs g k] rc)
    qed
  qed
qed

lemma scan_row_eq:
  "snake_length g \<le> int (length (snake g)) \<Longrightarrow>
   scan_row g cy cx =
     Inr (List.find (free_cell g) (map (\<lambda>c. \<lparr>x = c, y = cy\<rparr>) [cx..width g - 1]))"
proof (induction g cy cx rule: scan_row.induct)
  case (1 g cy cx)
  have sc: "segment_scan g \<lparr>x = cx, y = cy\<rparr> 0 = Inr (\<not> free_cell g \<lparr>x = cx, y = cy\<rparr>)"
    using "1.prems" by (simp add: segment_scan_free)
  show ?case
  proof (cases "cx < width g")
    case False
    then show ?thesis
      by (simp add: scan_row.simps [of g cy cx])
  next
    case True
    then have up: "[cx..width g - 1] = cx # [cx + 1..width g - 1]"
      by (simp add: upto_rec1)
    show ?thesis
    proof (cases "free_cell g \<lparr>x = cx, y = cy\<rparr>")
      case True
      with \<open>cx < width g\<close> sc up show ?thesis
        by (simp add: scan_row.simps [of g cy cx])
    next
      case False
      have "scan_row g cy (cx + 1) =
         Inr (List.find (free_cell g) (map (\<lambda>c. \<lparr>x = c, y = cy\<rparr>) [cx + 1..width g - 1]))"
        using "1.IH" [OF True sc] False "1.prems" by simp
      with False True sc up show ?thesis
        by (simp add: scan_row.simps [of g cy cx])
    qed
  qed
qed

lemma scan_grid_eq:
  "snake_length g \<le> int (length (snake g)) \<Longrightarrow>
   scan_grid g cy =
     Inr (List.find (free_cell g) (concat (map (grid_row g) [cy..height g - 1])))"
proof (induction g cy rule: scan_grid.induct)
  case (1 g cy)
  have row: "scan_row g cy 0 = Inr (List.find (free_cell g) (grid_row g cy))"
    using "1.prems" by (simp add: scan_row_eq grid_row_def)
  show ?case
  proof (cases "cy < height g")
    case False
    then show ?thesis
      by (simp add: scan_grid.simps [of g cy])
  next
    case True
    then have up: "[cy..height g - 1] = cy # [cy + 1..height g - 1]"
      by (simp add: upto_rec1)
    show ?thesis
    proof (cases "List.find (free_cell g) (grid_row g cy)")
      case (Some p)
      with True row up show ?thesis
        by (simp add: scan_grid.simps [of g cy] find_append)
    next
      case None
      have "scan_grid g (cy + 1) =
         Inr (List.find (free_cell g) (concat (map (grid_row g) [cy + 1..height g - 1])))"
        using "1.IH" [OF True] row None "1.prems" by simp
      with None True row up show ?thesis
        by (simp add: scan_grid.simps [of g cy] find_append)
    qed
  qed
qed

lemma spawn_food_refines:
  assumes "1 \<le> width g" and "1 \<le> height g"
    and "snake_length g \<le> int (length (snake g))"
  shows "spawn_food rs (Some g) = Inr (Some (spawn_food_spec rs g))"
  using assms
  by (simp add: spawn_food_def spawn_food_spec_def spawn_attempts_eq scan_grid_eq
      row_major_def place_food_def split: option.splits)

lemma set_grid_row:
  "set (grid_row g cy) = {p. y p = cy \<and> 0 \<le> x p \<and> x p < width g}"
proof (rule set_eqI)
  fix p :: Point
  show "p \<in> set (grid_row g cy) \<longleftrightarrow> p \<in> {p. y p = cy \<and> 0 \<le> x p \<and> x p < width g}"
  proof
    assume "p \<in> set (grid_row g cy)"
    then show "p \<in> {p. y p = cy \<and> 0 \<le> x p \<and> x p < width g}"
      by (auto simp: grid_row_def)
  next
    assume "p \<in> {p. y p = cy \<and> 0 \<le> x p \<and> x p < width g}"
    then have "x p \<in> {0..width g - 1}" and "p = \<lparr>x = x p, y = cy\<rparr>"
      by auto
    then have "p \<in> (\<lambda>c. \<lparr>x = c, y = cy\<rparr>) ` {0..width g - 1}"
      by (rule_tac image_eqI)
    then show "p \<in> set (grid_row g cy)"
      by (simp add: grid_row_def)
  qed
qed

lemma set_row_major:
  "set (row_major g) = {p. 0 \<le> x p \<and> x p < width g \<and> 0 \<le> y p \<and> y p < height g}"
  by (auto simp: row_major_def set_grid_row)

lemma spawn_food_spec_free:
  assumes "1 \<le> width g" and "1 \<le> height g"
    and "\<exists>cx cy. 0 \<le> cx \<and> cx < width g \<and> 0 \<le> cy \<and> cy < height g
                 \<and> \<lparr>x = cx, y = cy\<rparr> \<notin> set (segments g)"
  shows "position (food (spawn_food_spec rs g)) \<notin> set (segments g)"
    and "0 \<le> x (position (food (spawn_food_spec rs g)))"
    and "x (position (food (spawn_food_spec rs g))) < width g"
    and "0 \<le> y (position (food (spawn_food_spec rs g)))"
    and "y (position (food (spawn_food_spec rs g))) < height g"
    and "value (food (spawn_food_spec rs g)) = 10"
proof -
  from assms(3) obtain cx cy where c: "0 \<le> cx" "cx < width g" "0 \<le> cy" "cy < height g"
      "\<lparr>x = cx, y = cy\<rparr> \<notin> set (segments g)"
    by blast
  define q where "q = \<lparr>x = cx, y = cy\<rparr>"
  have q: "q \<in> set (row_major g)" "free_cell g q"
    using c by (simp_all add: q_def set_row_major free_cell_def)
  then have "List.find (free_cell g) (row_major g) \<noteq> None"
    by (auto simp: find_None_iff)
  then obtain r where r: "List.find (free_cell g) (row_major g) = Some r"
    by blast
  obtain p where p: "spawn_food_spec rs g = place_food g p" "free_cell g p"
    and pin: "p \<in> set (map (random_candidate rs g) [0..<MAX_ATTEMPTS]) \<or> p \<in> set (row_major g)"
  proof (cases "List.find (free_cell g) (map (random_candidate rs g) [0..<MAX_ATTEMPTS])")
    case None
    with r that [of r] find_SomeD [OF r] show ?thesis
      by (simp add: spawn_food_spec_def)
  next
    case (Some c)
    with that [of c] find_SomeD [OF Some] show ?thesis
      by (simp add: spawn_food_spec_def)
  qed
  have "0 \<le> x p \<and> x p < width g \<and> 0 \<le> y p \<and> y p < height g"
    using pin assms(1,2) by (auto simp: set_row_major random_candidate_def)
  with p show "position (food (spawn_food_spec rs g)) \<notin> set (segments g)"
    and "0 \<le> x (position (food (spawn_food_spec rs g)))"
    and "x (position (food (spawn_food_spec rs g))) < width g"
    and "0 \<le> y (position (food (spawn_food_spec rs g)))"
    and "y (position (food (spawn_food_spec rs g))) < height g"
    and "value (food (spawn_food_spec rs g)) = 10"
    by (simp_all add: place_food_def free_cell_def)
qed

lemma spawn_food_spec_full:
  assumes "1 \<le> width g" and "1 \<le> height g"
    and full: "\<forall>cx cy. 0 \<le> cx \<and> cx < width g \<and> 0 \<le> cy \<and> cy < height g \<longrightarrow>
                 \<lparr>x = cx, y = cy\<rparr> \<in> set (segments g)"
  shows "spawn_food_spec rs g = g"
proof -
  have occ: "\<not> free_cell g p" if "0 \<le> x p" "x p < width g" "0 \<le> y p" "y p < height g" for p
  proof -
    have "\<lparr>x = x p, y = y p\<rparr> \<in> set (segments g)"
      using full that by blast
    moreover have "\<lparr>x = x p, y = y p\<rparr> = p"
      by simp
    ultimately show ?thesis by (simp add: free_cell_def)
  qed
  have "List.find (free_cell g) (row_major g) = None"
    using occ by (auto simp: find_None_iff set_row_major)
  moreover have "List.find (free_cell g) (map (random_candidate rs g) [0..<MAX_ATTEMPTS]) = None"
    using occ assms(1,2) by (auto simp: find_None_iff random_candidate_def)
  ultimately show ?thesis
    by (simp add: spawn_food_spec_def)
qed

lemma spawn_food_shape:
  assumes "spawn_food rs (Some g) = Inr og'"
  shows "\<exists>f. og' = Some (g\<lparr>food := f\<rparr>)"
proof -
  have "og' = Some g \<or> (\<exists>p. og' = Some (g\<lparr>food := \<lparr>position = p, value = 10\<rparr>\<rparr>))"
    using assms unfolding spawn_food_def
    by (auto split: sum.splits option.splits)
  moreover have "g = g\<lparr>food := food g\<rparr>"
    by simp
  ultimately show ?thesis
    by metis
qed

lemma spawn_food_spec_frame:
  "snake (spawn_food_spec rs g) = snake g"
  "snake_length (spawn_food_spec rs g) = snake_length g"
  "score (spawn_food_spec rs g) = score g"
  "game_over (spawn_food_spec rs g) = game_over g"
  "width (spawn_food_spec rs g) = width g"
  "height (spawn_food_spec rs g) = height g"
  "direction (spawn_food_spec rs g) = direction g"
  by (simp_all add: spawn_food_spec_def place_food_def split: option.splits)

lemma spawn_food_eaten:
  assumes "length (snake g) = nat MAX_SNAKE_LENGTH"
    and "snake_length g \<le> MAX_SNAKE_LENGTH"
    and "1 \<le> width g" and "1 \<le> height g"
  shows "spawn_food rs (Some (eaten_state g)) = Inr (Some (spawn_food_spec rs (eaten_state g)))"
  using assms by (intro spawn_food_refines) (auto simp: eaten_state_def MAX_SNAKE_LENGTH_def)

subsection \<open>One tick\<close>

lemma shift_body_nonpos: "i \<le> 0 \<Longrightarrow> shift_body a i = Inr a"
  by (simp add: shift_body.simps [of a i])

lemma shift_body_eq:
  "0 \<le> i \<Longrightarrow> i < int (length a) \<Longrightarrow>
   shift_body a i = Inr (a ! 0 # take (nat i) a @ drop (nat i + 1) a)"
proof (induction a i rule: shift_body.induct)
  case (1 a i)
  show ?case
  proof (cases "i > 0")
    case False
    with "1.prems" have i0: "i = 0" by simp
    from "1.prems" have "a \<noteq> []" by auto
    then have "a ! 0 # drop 1 a = a"
      by (cases a) simp_all
    moreover have "shift_body a i = Inr a"
      using False by (simp add: shift_body_nonpos)
    ultimately show ?thesis
      using i0 by simp
  next
    case True
    define n where "n = nat i - 1"
    have n: "nat i = Suc n" "nat (i - 1) = n" "Suc n < length a"
      using True "1.prems" by (simp_all add: n_def)
    have rd: "arr_read a (i - 1) = Inr (a ! n)"
      using True "1.prems" n by (simp add: arr_read_def)
    have wr: "arr_write a i (a ! n) = Inr (a[Suc n := a ! n])"
      using True "1.prems" n by (simp add: arr_write_def)
    have "shift_body (a[Suc n := a ! n]) (i - 1) =
        Inr ((a[Suc n := a ! n]) ! 0 # take (nat (i - 1)) (a[Suc n := a ! n])
              @ drop (nat (i - 1) + 1) (a[Suc n := a ! n]))"
      using "1.IH" [OF True rd wr] True "1.prems" by simp
    moreover have "drop (Suc n) (a[Suc n := a ! n]) = a ! n # drop (Suc (Suc n)) a"
      using n by (simp add: drop_update_swap [symmetric] Cons_nth_drop_Suc [symmetric] upd_conv_take_nth_drop)
    moreover have "take (Suc n) a = take n a @ [a ! n]"
      using n by (simp add: take_Suc_conv_app_nth)
    ultimately show ?thesis
      using True rd wr n by (simp add: shift_body.simps [of a i])
  qed
qed

lemma move_snake:
  assumes "1 \<le> n" and "n \<le> int (length a)"
  shows "\<exists>b. shift_body a (n - 1) = Inr b
      \<and> arr_write b 0 nh = Inr (nh # take (nat n - 1) a @ drop (nat n) a)"
proof -
  have "shift_body a (n - 1) = Inr (a ! 0 # take (nat (n - 1)) a @ drop (nat (n - 1) + 1) a)"
    using assms by (intro shift_body_eq) simp_all
  moreover have "nat (n - 1) = nat n - 1" "nat (n - 1) + 1 = nat n"
    using assms by simp_all
  ultimately show ?thesis
    by (simp add: arr_write_def)
qed

lemma move_snake_short:
  assumes "n \<le> 0" and "a \<noteq> []"
  shows "\<exists>b. shift_body a (n - 1) = Inr b \<and> arr_write b 0 nh = Inr (a[0 := nh])"
  using assms by (simp add: shift_body_nonpos arr_write_def)

lemma update_game_unfold:
  assumes "\<not> game_over g" and "snake g \<noteq> []"
    and "get_new_position (snake g ! 0) (direction g) (width g) (height g) = Inr nh"
    and "segment_scan g nh 1 = Inr False"
  shows "update_game rs (Some g) =
       (case (if position (food g) = nh then spawn_food rs (Some (eaten_state g))
              else Inr (Some g)) of
          Inl e \<Rightarrow> Inl e
        | Inr None \<Rightarrow> Inr (True, None)
        | Inr (Some g2) \<Rightarrow>
            (case shift_body (snake g2) (snake_length g2 - 1) of
               Inl e \<Rightarrow> Inl e
             | Inr a \<Rightarrow>
                (case arr_write a 0 nh of
                   Inl e \<Rightarrow> Inl e
                 | Inr a' \<Rightarrow> Inr (True, Some (g2\<lparr>snake := a'\<rparr>)))))"
proof -
  have "arr_read (snake g) 0 = Inr (snake g ! 0)"
    using assms(2) by (simp add: arr_read_def)
  moreover have "is_food_position (Some g) nh = (position (food g) = nh)"
    by (simp add: is_food_position_def point_eq_iff)
  ultimately show ?thesis
    using assms by (simp add: update_game_def check_self_collision_def eaten_state_def)
qed

lemma update_game_cases:
  assumes "update_game rs (Some g) = Inr (b, og')"
  obtains (over) "game_over g" and "\<not> b" and "og' = Some g"
  | (collide) "\<not> game_over g" and "b" and "og' = Some (g\<lparr>game_over := True\<rparr>)"
  | (move) nh g2 a a' where "\<not> game_over g" and "b"
      and "snake g \<noteq> []"
      and "get_new_position (snake g ! 0) (direction g) (width g) (height g) = Inr nh"
      and "segment_scan g nh 1 = Inr False"
      and "(if position (food g) = nh then spawn_food rs (Some (eaten_state g))
            else Inr (Some g)) = Inr (Some g2)"
      and "shift_body (snake g2) (snake_length g2 - 1) = Inr a"
      and "arr_write a 0 nh = Inr a'"
      and "og' = Some (g2\<lparr>snake := a'\<rparr>)"
proof (cases "game_over g")
  case True
  with assms that(1) show ?thesis
    by (simp add: update_game_def)
next
  case False
  from assms False obtain hd0 where hd0: "arr_read (snake g) 0 = Inr hd0"
    by (auto simp: update_game_def split: sum.splits)
  then have ne: "snake g \<noteq> []" and hd0_eq: "hd0 = snake g ! 0"
    by (auto simp: arr_read_def split: if_splits)
  from assms False hd0 obtain nh where
    nh: "get_new_position hd0 (direction g) (width g) (height g) = Inr nh"
    by (auto simp: update_game_def split: sum.splits)
  from assms False hd0 nh obtain c where c: "segment_scan g nh 1 = Inr c"
    by (auto simp: update_game_def check_self_collision_def split: sum.splits)
  show ?thesis
  proof (cases c)
    case True
    with assms False hd0 nh c that(2) show ?thesis
      by (simp add: update_game_def check_self_collision_def)
  next
    case cf: False
    let ?sp = "if position (food g) = nh then spawn_food rs (Some (eaten_state g))
               else Inr (Some g)"
    have upd: "update_game rs (Some g) =
       (case ?sp of
          Inl e \<Rightarrow> Inl e
        | Inr None \<Rightarrow> Inr (True, None)
        | Inr (Some g2) \<Rightarrow>
            (case shift_body (snake g2) (snake_length g2 - 1) of
               Inl e \<Rightarrow> Inl e
             | Inr a \<Rightarrow>
                (case arr_write a 0 nh of
                   Inl e \<Rightarrow> Inl e
                 | Inr a' \<Rightarrow> Inr (True, Some (g2\<lparr>snake := a'\<rparr>)))))"
      using False ne nh c cf hd0_eq by (intro update_game_unfold) simp_all
    from assms upd obtain og2 where og2: "?sp = Inr og2"
      by (auto split: sum.splits)
    then obtain g2 where g2: "og2 = Some g2"
      using spawn_food_shape [of rs "eaten_state g" og2]
      by (auto split: if_splits)
    from assms upd og2 g2 obtain a where a: "shift_body (snake g2) (snake_length g2 - 1) = Inr a"
      by (auto split: sum.splits)
    from assms upd og2 g2 a obtain a' where a': "arr_write a 0 nh = Inr a'"
      by (auto split: sum.splits)
    from assms upd og2 g2 a a' have "b" and "og' = Some (g2\<lparr>snake := a'\<rparr>)"
      by simp_all
    with that(3) [of nh g2 a a'] False ne nh hd0_eq c cf og2 g2 a a' show ?thesis
      by simp
  qed
qed

lemma update_game_moves:
  assumes "\<not> game_over g" and "snake g \<noteq> []"
    and "get_new_position (snake g ! 0) (direction g) (width g) (height g) = Inr nh"
    and "check_self_collision (Some g) nh = Inr False"
    and "(if position (food g) = nh then spawn_food rs (Some (eaten_state g))
          else Inr (Some g)) = Inr (Some g2)"
    and "shift_body (snake g2) (snake_length g2 - 1) = Inr a"
    and "arr_write a 0 nh = Inr a'"
  shows "update_game rs (Some g) = Inr (True, Some (g2\<lparr>snake := a'\<rparr>))"
proof -
  have "segment_scan g nh 1 = Inr False"
    using assms(4) by (simp add: check_self_collision_def)
  from update_game_unfold [OF assms(1-3) this] show ?thesis
    by (simp only: assms(5-7) sum.case option.case)
qed

lemma update_seq_over:
  "game_over g \<Longrightarrow> update_seq rss (Some g) = Inr (Some g)"
  by (induction rss) (simp_all add: update_game_def)

subsection \<open>Initialisation and reachable states\<close>

lemma init_segments_three:
  "3 \<le> length a \<Longrightarrow>
   init_segments a sx sy 3 0 =
     Inr (a[0 := \<lparr>x = sx, y = sy\<rparr>, 1 := \<lparr>x = sx - 1, y = sy\<rparr>, 2 := \<lparr>x = sx - 2, y = sy\<rparr>])"
  by (auto simp: init_segments.simps arr_write_def)

lemma take3_update:
  "3 \<le> length a \<Longrightarrow> take 3 (a[0 := p, Suc 0 := q, 2 := r]) = [p, q, r]"
  by (cases a; cases "tl a"; cases "tl (tl a)") (auto simp: numeral_3_eq_3)

lemma initialize_game_inv:
  assumes "length (snake g0) = nat MAX_SNAKE_LENGTH"
    and "w \<le> INT_MAX" and "h \<le> INT_MAX"
    and "initialize_game rs (Some g0) w h = Inr (Some g)"
  shows "snake_inv g"
proof -
  let ?a = "(snake g0)[0 := \<lparr>x = w sdiv 2, y = h sdiv 2\<rparr>, 1 := \<lparr>x = w sdiv 2 - 1, y = h sdiv 2\<rparr>,
              2 := \<lparr>x = w sdiv 2 - 2, y = h sdiv 2\<rparr>]"
  let ?g1 = "g0\<lparr>width := w, height := h, snake_length := INITIAL_SNAKE_LENGTH,
                 direction := RIGHT, score := 0, game_over := False, snake := ?a\<rparr>"
  have l3: "3 \<le> length (snake g0)"
    using assms(1) by (simp add: MAX_SNAKE_LENGTH_def)
  have "spawn_food rs (Some ?g1) = Inr (Some g)"
    using assms(4) init_segments_three [OF l3]
    by (simp add: initialize_game_def INITIAL_SNAKE_LENGTH_def)
  then obtain f where g: "g = ?g1\<lparr>food := f\<rparr>"
    using spawn_food_shape by blast
  have "segments g = [\<lparr>x = w sdiv 2, y = h sdiv 2\<rparr>, \<lparr>x = w sdiv 2 - 1, y = h sdiv 2\<rparr>,
      \<lparr>x = w sdiv 2 - 2, y = h sdiv 2\<rparr>]"
    using l3 by (simp add: g segments_def INITIAL_SNAKE_LENGTH_def take3_update)
  then have "distinct (segments g)"
    by simp
  then show ?thesis
    using assms(1-3)
    by (simp add: snake_inv_def g INITIAL_SNAKE_LENGTH_def MAX_SNAKE_LENGTH_def)
qed

lemma initialize_game_returns:
  assumes "3 \<le> length (snake g0)" and "1 \<le> w" and "1 \<le> h"
  shows "\<exists>g. initialize_game rs (Some g0) w h = Inr (Some g) \<and> \<not> game_over g
    \<and> width g = w \<and> height g = h \<and> snake_length g = INITIAL_SNAKE_LENGTH \<and> score g = 0"
proof -
  let ?a = "(snake g0)[0 := \<lparr>x = w sdiv 2, y = h sdiv 2\<rparr>, 1 := \<lparr>x = w sdiv 2 - 1, y = h sdiv 2\<rparr>,
              2 := \<lparr>x = w sdiv 2 - 2, y = h sdiv 2\<rparr>]"
  let ?g1 = "g0\<lparr>width := w, height := h, snake_length := INITIAL_SNAKE_LENGTH,
                 direction := RIGHT, score := 0, game_over := False, snake := ?a\<rparr>"
  have "initialize_game rs (Some g0) w h = spawn_food rs (Some ?g1)"
    using init_segments_three [OF assms(1)]
    by (simp add: initialize_game_def INITIAL_SNAKE_LENGTH_def)
  moreover have "spawn_food rs (Some ?g1) = Inr (Some (spawn_food_spec rs ?g1))"
    using assms by (intro spawn_food_refines) (simp_all add: INITIAL_SNAKE_LENGTH_def)
  ultimately show ?thesis
    by (simp add: spawn_food_spec_frame)
qed

lemma snake_inv_frame:
  assumes "snake_inv g"
    and "snake g' = snake g" and "snake_length g' = snake_length g"
    and "width g' = width g" and "height g' = height g"
  shows "snake_inv g'"
  using assms by (simp add: snake_inv_def segments_def)

lemma update_game_inv:
  assumes "snake_inv g" and "update_game rs (Some g) = Inr (b, Some g')"
  shows "snake_inv g' \<and> width g' = width g \<and> height g' = height g"
  using assms(2)
proof (cases rule: update_game_cases)
  case over
  with assms(1) show ?thesis by simp
next
  case collide
  with assms(1) show ?thesis
    by (auto intro: snake_inv_frame)
next
  case (move nh g2 a a')
  have len: "length (snake g) = nat MAX_SNAKE_LENGTH"
    and lo: "INITIAL_SNAKE_LENGTH \<le> snake_length g" and hi: "snake_length g \<le> MAX_SNAKE_LENGTH"
    and rng: "width g \<le> INT_MAX" "height g \<le> INT_MAX"
    using assms(1) by (simp_all add: snake_inv_def)
  have "g2 = g \<or> (\<exists>f. g2 = (eaten_state g)\<lparr>food := f\<rparr>)"
    using move(6) spawn_food_shape [of rs "eaten_state g" "Some g2"]
    by (auto split: if_splits)
  then have g2: "snake g2 = snake g" "width g2 = width g" "height g2 = height g"
    and n2: "snake_length g \<le> snake_length g2" "snake_length g2 \<le> snake_length g + 1"
      "snake_length g2 \<le> MAX_SNAKE_LENGTH"
    using hi by (auto simp: eaten_state_def)
  have pos2: "1 \<le> snake_length g2" and len2: "snake_length g2 \<le> int (length (snake g2))"
    using lo n2 len by (simp_all add: g2 INITIAL_SNAKE_LENGTH_def MAX_SNAKE_LENGTH_def)
  define k where "k = nat (snake_length g2) - 1"
  have k: "nat (snake_length g2) = Suc k" "k \<le> nat (snake_length g)" "Suc k \<le> length (snake g)"
    using pos2 n2 len2 by (simp_all add: k_def g2)
  have a': "a' = nh # take k (snake g) @ drop (Suc k) (snake g)"
    using move_snake [OF pos2 len2, of nh] move(7,8) by (simp add: g2 k_def [symmetric] k)
  have seg': "segments (g2\<lparr>snake := a'\<rparr>) = nh # take k (segments g)"
    using k by (simp add: segments_def a' min_def)
  have dist: "distinct (segments (g2\<lparr>snake := a'\<rparr>))" if wh: "2 \<le> width g" "2 \<le> height g"
  proof -
    have d: "distinct (segments g)"
      using assms(1) wh by (simp add: snake_inv_def)
    have "nat (snake_length g) \<noteq> 0"
      using lo by (simp add: INITIAL_SNAKE_LENGTH_def)
    then have "segments g \<noteq> []"
      using len lo by (auto simp: segments_def MAX_SNAKE_LENGTH_def INITIAL_SNAKE_LENGTH_def)
    then have "segments g = segments g ! 0 # drop 1 (segments g)"
      by (cases "segments g") simp_all
    moreover have "segments g ! 0 = snake g ! 0"
      using \<open>nat (snake_length g) \<noteq> 0\<close> by (simp add: segments_def)
    ultimately have split: "segments g = snake g ! 0 # drop 1 (segments g)"
      by simp
    have "segment_scan g nh 1 = Inr (nh \<in> set (drop (nat 1) (segments g)))"
      using hi len by (intro segment_scan_eq) (simp_all add: MAX_SNAKE_LENGTH_def)
    with move(5) have "nh \<notin> set (drop 1 (segments g))"
      by simp
    moreover have "nh \<noteq> snake g ! 0"
      using get_new_position_neq [OF wh(1) rng(1) wh(2) rng(2) move(4)] .
    ultimately have "nh \<notin> set (segments g)"
      using split by (metis set_ConsD)
    then have "nh \<notin> set (take k (segments g))"
      by (auto dest: in_set_takeD)
    with d show ?thesis
      by (simp add: seg')
  qed
  have "length a' = nat MAX_SNAKE_LENGTH"
    using k len by (simp add: a')
  with dist move(9) n2 lo rng show ?thesis
    by (simp add: snake_inv_def g2)
qed

lemma set_direction_shape:
  "set_direction (Some g) d = Some g' \<Longrightarrow> g' = g \<or> g' = g\<lparr>direction := d\<rparr>"
  by (auto simp: set_direction_def split: if_splits)

lemma reachable_inv: "reachable g \<Longrightarrow> snake_inv g"
proof (induction rule: reachable.induct)
  case (init g0 w h rs g)
  from init(1,3,5,6) show ?case by (rule initialize_game_inv)
next
  case (tick g rs b g')
  then show ?case using update_game_inv by blast
next
  case (turn g d g')
  with set_direction_shape [OF turn(2)] show ?case
    by (auto intro: snake_inv_frame)
next
  case (respawn g rs g')
  with spawn_food_shape [OF respawn(2)] show ?case
    by (auto intro: snake_inv_frame)
next
  case (reset g rs g')
  then have "length (snake g) = nat MAX_SNAKE_LENGTH"
    and "width g \<le> INT_MAX" and "height g \<le> INT_MAX"
    by (simp_all add: snake_inv_def)
  moreover have "initialize_game rs (Some g) (width g) (height g) = Inr (Some g')"
    using reset(2) by (simp add: reset_game_def)
  ultimately show ?case by (rule initialize_game_inv)
qed

subsection \<open>The examples, computed\<close>

lemma blank_length: "length (snake blank_state) = nat MAX_SNAKE_LENGTH"
  by (simp add: blank_state_def MAX_SNAKE_LENGTH_def)

lemma init_start: "initialize_game ex_rs (Some blank_state) 10 10 = Inr (Some start_state)"
  by code_simp

lemma update_start: "update_game ex_rs (Some start_state) = Inr (True, Some fed_state)"
  by code_simp

lemma int_range_10: "INT_MIN \<le> 10" "10 \<le> INT_MAX" "INT_MIN \<le> 1" "1 \<le> INT_MAX"
  by (simp_all add: INT_MIN_def INT_MAX_def)

lemma reachable_start: "reachable start_state"
  using blank_length int_range_10(1,2,1,2) init_start by (rule reachable.init)

lemma init_flat: "initialize_game ex_rs (Some blank_state) 10 1 = Inr (Some flat_state)"
  by code_simp

lemma turn_flat: "set_direction (Some flat_state) UP = Some (flat_state\<lparr>direction := UP\<rparr>)"
  by (simp add: set_direction_def flat_state_def)

lemma update_flat:
  "update_game ex_rs (Some (flat_state\<lparr>direction := UP\<rparr>)) = Inr (True, Some folded_state)"
  by code_simp

lemma reachable_flat_up: "reachable (flat_state\<lparr>direction := UP\<rparr>)"
  using reachable.turn [OF reachable.init [OF blank_length int_range_10 init_flat] turn_flat] .

lemma start_hyps:
  "\<not> game_over start_state"
  "length (snake start_state) = nat MAX_SNAKE_LENGTH"
  "1 \<le> snake_length start_state" "snake_length start_state < MAX_SNAKE_LENGTH"
  "1 \<le> width start_state" "1 \<le> height start_state"
  "get_new_position (snake start_state ! 0) (direction start_state) (width start_state)
     (height start_state) = Inr \<lparr>x = 6, y = 5\<rparr>"
  "is_food_position (Some start_state) \<lparr>x = 6, y = 5\<rparr>"
  by (simp_all add: start_state_def MAX_SNAKE_LENGTH_def c_rem_def c_add_def c_sub_def wrap_int_def smod_int_alt_def
      is_food_position_def)

lemma update_tiny: "update_game ex_rs (Some tiny_state) = Inr (True, Some tiny_after)"
  by code_simp

lemma update_overflow:
  "update_game ex_rs (Some (start_state\<lparr>score := 2147483640\<rparr>))
     = Inr (True, Some (fed_state\<lparr>score := - 2147483646\<rparr>))"
  by code_simp

lemma start_no_collision: "check_self_collision (Some start_state) \<lparr>x = 6, y = 5\<rparr> = Inr False"
  by code_simp

lemma long_hyps:
  "\<not> game_over long_state"
  "length (snake long_state) = nat MAX_SNAKE_LENGTH"
  "snake_length long_state \<le> MAX_SNAKE_LENGTH"
  "1 \<le> width long_state" "1 \<le> height long_state"
  "get_new_position (snake long_state ! 0) (direction long_state) (width long_state)
     (height long_state) = Inr \<lparr>x = 151, y = 5\<rparr>"
  "is_food_position (Some long_state) \<lparr>x = 151, y = 5\<rparr>"
  by (simp_all add: long_state_def MAX_SNAKE_LENGTH_def c_rem_def c_add_def c_sub_def wrap_int_def smod_int_alt_def
      is_food_position_def)

lemma long_no_collision: "check_self_collision (Some long_state) \<lparr>x = 151, y = 5\<rparr> = Inr False"
proof -
  have "segment_scan long_state \<lparr>x = 151, y = 5\<rparr> 1 =
      Inr (\<lparr>x = 151, y = 5\<rparr> \<in> set (drop (nat 1) (segments long_state)))"
    by (intro segment_scan_eq) (simp_all add: long_state_def)
  moreover have "\<lparr>x = 151, y = 5\<rparr> \<notin> set (snake long_state)"
    by (auto simp: long_state_def)
  then have "\<lparr>x = 151, y = 5\<rparr> \<notin> set (drop (nat 1) (segments long_state))"
    by (auto simp: segments_def dest!: in_set_dropD in_set_takeD)
  ultimately show ?thesis
    by (simp add: check_self_collision_def)
qed

section \<open>The claims\<close>

text \<open>
  C1. The claim: in a reachable state, after an \<open>update_game\<close> that returns true and
  does not end the game, the food is on no segment. The code does not keep it: when the head
  reaches the food, \<^verbatim>\<open>spawn_food\<close> runs before the segments move, so its occupancy
  test does not see the cell the head is about to enter. From \<open>start_state\<close>, which
  \<^verbatim>\<open>initialize_game\<close> produces, one tick with the draws 6, 5 puts the new food on
  (6,5) and then the head on (6,5).
\<close>

theorem food_respawns_under_new_head:
  "reachable start_state
   \<and> update_game ex_rs (Some start_state) = Inr (True, Some fed_state)
   \<and> \<not> game_over fed_state
   \<and> get_food_position (Some fed_state) = \<lparr>x = 6, y = 5\<rparr>
   \<and> get_snake_segment (Some fed_state) 0 = Inr \<lparr>x = 6, y = 5\<rparr>"
  using reachable_start update_start
  by (simp add: fed_state_def get_food_position_def get_snake_segment_def arr_read_def)

text \<open>
  C2. In a state that is not game over, when the new head (one cell from the head in the
  current direction, wrapped) is the position of a segment at an index from 1 to
  \<open>snake_length - 1\<close> of the snake before the move, the tail cell included,
  \<open>update_game\<close> returns true and sets \<open>game_over\<close>; segments, \<open>snake_length\<close>,
  score, direction and food are as before.
\<close>

theorem update_game_self_collision:
  assumes "\<not> game_over g"
    and "get_new_position (snake g ! 0) (direction g) (width g) (height g) = Inr new_head"
    and "1 \<le> i" and "i < snake_length g" and "i < int (length (snake g))"
    and "snake g ! nat i = new_head"
  shows "update_game rs (Some g) = Inr (True, Some (g\<lparr>game_over := True\<rparr>))"
proof -
  have "arr_read (snake g) 0 = Inr (snake g ! 0)"
    using assms by (auto simp: arr_read_def)
  moreover have "check_self_collision (Some g) new_head = Inr True"
    using segment_scan_hit [of 1 i g new_head] assms by (simp add: check_self_collision_def)
  ultimately show ?thesis
    using assms by (simp add: update_game_def)
qed

text \<open>
  An instance: a snake of four segments in a square, its head turning onto its own tail.
\<close>

theorem update_game_self_collision_witness:
  "update_game ex_rs
     (Some \<lparr>width = 5, height = 5,
            snake = [\<lparr>x = 1, y = 1\<rparr>, \<lparr>x = 1, y = 2\<rparr>, \<lparr>x = 2, y = 2\<rparr>, \<lparr>x = 2, y = 1\<rparr>],
            snake_length = 4, direction = RIGHT,
            food = \<lparr>position = \<lparr>x = 4, y = 4\<rparr>, value = 10\<rparr>, score = 0, game_over = False\<rparr>)
   = Inr (True,
      Some \<lparr>width = 5, height = 5,
            snake = [\<lparr>x = 1, y = 1\<rparr>, \<lparr>x = 1, y = 2\<rparr>, \<lparr>x = 2, y = 2\<rparr>, \<lparr>x = 2, y = 1\<rparr>],
            snake_length = 4, direction = RIGHT,
            food = \<lparr>position = \<lparr>x = 4, y = 4\<rparr>, value = 10\<rparr>, score = 0, game_over = True\<rparr>)"
  using update_game_self_collision [of
     "\<lparr>width = 5, height = 5,
            snake = [\<lparr>x = 1, y = 1\<rparr>, \<lparr>x = 1, y = 2\<rparr>, \<lparr>x = 2, y = 2\<rparr>, \<lparr>x = 2, y = 1\<rparr>],
            snake_length = 4, direction = RIGHT,
            food = \<lparr>position = \<lparr>x = 4, y = 4\<rparr>, value = 10\<rparr>, score = 0, game_over = False\<rparr>"
     "\<lparr>x = 2, y = 1\<rparr>" 3 ex_rs]
  by (simp add: c_rem_def c_add_def c_sub_def wrap_int_def smod_int_alt_def)

text \<open>
  C3, as the code has it. In a reachable state whose width and height are at least 2,
  after an \<open>update_game\<close> that returns true and does not end the game, no two segments
  at indices below \<open>snake_length\<close> are on the same cell.
\<close>

theorem segments_distinct_after_update:
  assumes "reachable g" and "2 \<le> width g" and "2 \<le> height g"
    and "update_game rs (Some g) = Inr (True, Some g')" and "\<not> game_over g'"
  shows "distinct (segments g')
    \<and> (\<forall>i j. 0 \<le> i \<and> i < j \<and> j < snake_length g' \<longrightarrow>
          get_snake_segment (Some g') i \<noteq> get_snake_segment (Some g') j)"
proof -
  have inv: "snake_inv g'" and wh: "width g' = width g" "height g' = height g"
    using update_game_inv [OF reachable_inv [OF assms(1)] assms(4)] by simp_all
  then have d: "distinct (segments g')"
    using assms(2,3) by (simp add: snake_inv_def)
  have len: "snake_length g' \<le> int (length (snake g'))"
    using inv by (simp add: snake_inv_def)
  have "get_snake_segment (Some g') i \<noteq> get_snake_segment (Some g') j"
    if "0 \<le> i \<and> i < j \<and> j < snake_length g'" for i j
  proof -
    have ij: "nat i < length (segments g')" "nat j < length (segments g')" "nat i \<noteq> nat j"
      using that len by (auto simp: segments_def)
    then have "segments g' ! nat i \<noteq> segments g' ! nat j"
      using d by (simp add: nth_eq_iff_index_eq)
    moreover have "segments g' ! nat i = snake g' ! nat i" "segments g' ! nat j = snake g' ! nat j"
      using that by (simp_all add: segments_def)
    ultimately show ?thesis
      using that len by (simp add: get_snake_segment_def arr_read_def)
  qed
  with d show ?thesis by blast
qed

theorem segments_distinct_after_update_witness:
  "reachable start_state \<and> 2 \<le> width start_state \<and> 2 \<le> height start_state
   \<and> update_game ex_rs (Some start_state) = Inr (True, Some fed_state)
   \<and> \<not> game_over fed_state
   \<and> distinct (segments fed_state)"
proof -
  have "2 \<le> width start_state" "2 \<le> height start_state" "\<not> game_over fed_state"
    by (simp_all add: start_state_def fed_state_def)
  with segments_distinct_after_update [OF reachable_start _ _ update_start]
    reachable_start update_start
  show ?thesis by simp
qed

text \<open>
  C3 as stated allows width or height 1. On a board of height 1 a move Up wraps the head
  onto its own cell, which \<^verbatim>\<open>check_self_collision\<close> does not test (it starts at index 1):
  after \<^verbatim>\<open>initialize_game(&g, 10, 1)\<close>, \<^verbatim>\<open>set_direction(&g, UP)\<close> and one tick, the
  segments 0 and 1 are both on (5,0).
\<close>

theorem segments_overlap_counterexample:
  "reachable (flat_state\<lparr>direction := UP\<rparr>)
   \<and> 1 \<le> width (flat_state\<lparr>direction := UP\<rparr>) \<and> 1 \<le> height (flat_state\<lparr>direction := UP\<rparr>)
   \<and> update_game ex_rs (Some (flat_state\<lparr>direction := UP\<rparr>)) = Inr (True, Some folded_state)
   \<and> \<not> game_over folded_state
   \<and> snake_length folded_state = 3
   \<and> get_snake_segment (Some folded_state) 0 = Inr \<lparr>x = 5, y = 0\<rparr>
   \<and> get_snake_segment (Some folded_state) 1 = Inr \<lparr>x = 5, y = 0\<rparr>
   \<and> \<not> distinct (segments folded_state)"
  using reachable_flat_up update_flat
  by (simp add: flat_state_def folded_state_def get_snake_segment_def arr_read_def segments_def)

text \<open>
  C4, as the code has it. With a null state every operation leaves the state alone and
  returns a default: \<open>update_game\<close> false, \<open>get_score\<close> 0, \<open>get_snake_segment\<close> and
  \<open>get_food_position\<close> the point (-1,-1), the two position queries false;
  \<open>is_game_over\<close> returns true.
\<close>

theorem null_state_defaults:
  "update_game rs None = Inr (False, None)
   \<and> get_score None = 0
   \<and> get_snake_segment None i = Inr \<lparr>x = -1, y = -1\<rparr>
   \<and> is_game_over None = True
   \<and> get_food_position None = \<lparr>x = -1, y = -1\<rparr>
   \<and> check_self_collision None p = Inr False
   \<and> is_food_position None p = False
   \<and> set_direction None d = None
   \<and> spawn_food rs None = Inr None
   \<and> initialize_game rs None w h = Inr None
   \<and> reset_game rs None = Inr None"
  by (simp add: update_game_def get_score_def get_snake_segment_def is_game_over_def
      get_food_position_def check_self_collision_def is_food_position_def set_direction_def
      spawn_food_def initialize_game_def reset_game_def)

text \<open>
  C4 as stated says that \<open>is_game_over\<close> returns false for a null state. It returns true.
\<close>

theorem is_game_over_null_counterexample:
  "\<not> (is_game_over None = False)"
  by (simp add: is_game_over_def)

text \<open>
  C5, as the code has it. In a state that is not game over, with the segment array of
  capacity \<open>MAX_SNAKE_LENGTH\<close>, \<open>snake_length\<close> from 1 to \<open>MAX_SNAKE_LENGTH\<close> and a grid
  of at least one cell, when the new head is the food position and hits no body segment and
  the sum of the score and the food's value is an \<^verbatim>\<open>int\<close>, \<open>update_game\<close> returns
  true, the score is that sum, and \<open>snake_length\<close> stays at \<open>MAX_SNAKE_LENGTH\<close> if it was
  there and is one more otherwise. The food is what \<open>spawn_food\<close> makes of the snake
  before the move, taken at its new length: when a cell of the grid is free of those
  segments, a new item of value 10 on such a cell; when none is, the food it was.
\<close>

theorem update_game_eats_food:
  assumes "\<not> game_over g"
    and "length (snake g) = nat MAX_SNAKE_LENGTH"
    and "1 \<le> snake_length g" and "snake_length g \<le> MAX_SNAKE_LENGTH"
    and "1 \<le> width g" and "1 \<le> height g"
    and "get_new_position (snake g ! 0) (direction g) (width g) (height g) = Inr new_head"
    and "check_self_collision (Some g) new_head = Inr False"
    and "is_food_position (Some g) new_head"
    and "INT_MIN \<le> score g + value (food g)" and "score g + value (food g) \<le> INT_MAX"
  shows "\<exists>g'. update_game rs (Some g) = Inr (True, Some g')
      \<and> \<not> game_over g'
      \<and> score g' = score g + value (food g)
      \<and> snake_length g' =
          (if snake_length g = MAX_SNAKE_LENGTH then MAX_SNAKE_LENGTH else snake_length g + 1)
      \<and> food g' =
          food (spawn_food_spec rs (g\<lparr>snake_length := snake_length g', score := score g'\<rparr>))
      \<and> ((\<exists>cx cy. 0 \<le> cx \<and> cx < width g \<and> 0 \<le> cy \<and> cy < height g
                  \<and> \<lparr>x = cx, y = cy\<rparr> \<notin> set (segments (g\<lparr>snake_length := snake_length g'\<rparr>))) \<longrightarrow>
           value (food g') = 10
           \<and> position (food g') \<notin> set (segments (g\<lparr>snake_length := snake_length g'\<rparr>))
           \<and> 0 \<le> x (position (food g')) \<and> x (position (food g')) < width g
           \<and> 0 \<le> y (position (food g')) \<and> y (position (food g')) < height g)
      \<and> ((\<forall>cx cy. 0 \<le> cx \<and> cx < width g \<and> 0 \<le> cy \<and> cy < height g \<longrightarrow>
                  \<lparr>x = cx, y = cy\<rparr> \<in> set (segments (g\<lparr>snake_length := snake_length g'\<rparr>))) \<longrightarrow>
           food g' = food g)"
proof -
  let ?e = "eaten_state g"
  let ?gs = "spawn_food_spec rs ?e"
  have ne: "snake g \<noteq> []"
    using assms(2) by (auto simp: MAX_SNAKE_LENGTH_def)
  have fp: "position (food g) = new_head"
    using assms(9) by (simp add: is_food_position_def point_eq_iff)
  have sc: "c_add (score g) (value (food g)) = score g + value (food g)"
    using assms(10,11) by (simp add: c_add_def wrap_int_id)
  have sp: "spawn_food rs (Some ?e) = Inr (Some ?gs)"
    using assms(2,4,5,6) by (rule spawn_food_eaten)
  have sp': "(if position (food g) = new_head then spawn_food rs (Some ?e)
          else Inr (Some g)) = Inr (Some ?gs)"
    using fp sp by simp
  have pos: "1 \<le> snake_length ?gs" and len: "snake_length ?gs \<le> int (length (snake ?gs))"
    using assms(2,3,4) by (auto simp: spawn_food_spec_frame eaten_state_def MAX_SNAKE_LENGTH_def)
  from move_snake [OF pos len, of new_head] obtain a a' where
    mv: "shift_body (snake ?gs) (snake_length ?gs - 1) = Inr a" "arr_write a 0 new_head = Inr a'"
    by blast
  let ?g' = "?gs\<lparr>snake := a'\<rparr>"
  have upd: "update_game rs (Some g) = Inr (True, Some ?g')"
    using assms(1) ne assms(7,8) sp' mv by (rule update_game_moves)
  have es: "g\<lparr>snake_length := snake_length ?g', score := score ?g'\<rparr> = ?e"
    by (simp add: spawn_food_spec_frame eaten_state_def)
  have seg: "segments (g\<lparr>snake_length := snake_length ?g'\<rparr>) = segments ?e"
    by (simp add: segments_def spawn_food_spec_frame eaten_state_def)
  have seg': "segments (g\<lparr>snake_length := snake_length ?gs\<rparr>) = segments ?e"
    by (simp add: segments_def spawn_food_spec_frame eaten_state_def)
  have wh: "1 \<le> width ?e" "1 \<le> height ?e" "width ?e = width g" "height ?e = height g"
    using assms(5,6) by (simp_all add: eaten_state_def)
  show ?thesis
  proof (intro exI [of _ ?g'] conjI impI)
    show "update_game rs (Some g) = Inr (True, Some ?g')"
      by (fact upd)
    show "\<not> game_over ?g'"
      using assms(1) by (simp add: spawn_food_spec_frame eaten_state_def)
    show "score ?g' = score g + value (food g)"
      by (simp add: spawn_food_spec_frame eaten_state_def sc)
    show "snake_length ?g' =
          (if snake_length g = MAX_SNAKE_LENGTH then MAX_SNAKE_LENGTH else snake_length g + 1)"
      using assms(4) by (simp add: spawn_food_spec_frame eaten_state_def)
    show "food ?g' = food (spawn_food_spec rs
        (g\<lparr>snake_length := snake_length ?g', score := score ?g'\<rparr>))"
      by (simp only: es) simp
  next
    assume "\<exists>cx cy. 0 \<le> cx \<and> cx < width g \<and> 0 \<le> cy \<and> cy < height g
        \<and> \<lparr>x = cx, y = cy\<rparr> \<notin> set (segments (g\<lparr>snake_length := snake_length ?g'\<rparr>))"
    then have free: "\<exists>cx cy. 0 \<le> cx \<and> cx < width ?e \<and> 0 \<le> cy \<and> cy < height ?e
        \<and> \<lparr>x = cx, y = cy\<rparr> \<notin> set (segments ?e)"
      by (simp only: seg wh)
    from spawn_food_spec_free [OF wh(1,2) free, of rs]
    show "value (food ?g') = 10"
      and "position (food ?g') \<notin> set (segments (g\<lparr>snake_length := snake_length ?g'\<rparr>))"
      and "0 \<le> x (position (food ?g'))" and "x (position (food ?g')) < width g"
      and "0 \<le> y (position (food ?g'))" and "y (position (food ?g')) < height g"
      by (simp_all add: seg' wh(3,4))
  next
    assume "\<forall>cx cy. 0 \<le> cx \<and> cx < width g \<and> 0 \<le> cy \<and> cy < height g \<longrightarrow>
        \<lparr>x = cx, y = cy\<rparr> \<in> set (segments (g\<lparr>snake_length := snake_length ?g'\<rparr>))"
    then have full: "\<forall>cx cy. 0 \<le> cx \<and> cx < width ?e \<and> 0 \<le> cy \<and> cy < height ?e \<longrightarrow>
        \<lparr>x = cx, y = cy\<rparr> \<in> set (segments ?e)"
      by (simp only: seg wh)
    have "?gs = ?e"
      using wh(1,2) full by (rule spawn_food_spec_full)
    then show "food ?g' = food g"
      by (simp add: eaten_state_def)
  qed
qed

text \<open>
  An instance at the cap: a snake of 100 segments eats, the score goes from 970 to 980, the
  length stays 100, and a new food of value 10 is on a cell that no segment occupied.
\<close>

theorem update_game_eats_food_witness:
  "\<exists>g'. update_game ex_rs (Some long_state) = Inr (True, Some g')
      \<and> \<not> game_over g'
      \<and> score g' = 980
      \<and> snake_length g' = 100
      \<and> value (food g') = 10
      \<and> position (food g') \<notin> set (snake long_state)"
proof -
  have sc: "INT_MIN \<le> score long_state + value (food long_state)"
    "score long_state + value (food long_state) \<le> INT_MAX"
    "1 \<le> snake_length long_state"
    by (simp_all add: long_state_def INT_MIN_def INT_MAX_def)
  from update_game_eats_food [OF long_hyps(1,2) sc(3) long_hyps(3-6) long_no_collision
      long_hyps(7) sc(1,2), of ex_rs]
  obtain g' where g': "update_game ex_rs (Some long_state) = Inr (True, Some g')"
    "\<not> game_over g'"
    "score g' = score long_state + value (food long_state)"
    "snake_length g' = (if snake_length long_state = MAX_SNAKE_LENGTH then MAX_SNAKE_LENGTH
        else snake_length long_state + 1)"
    and free: "(\<exists>cx cy. 0 \<le> cx \<and> cx < width long_state \<and> 0 \<le> cy \<and> cy < height long_state
          \<and> \<lparr>x = cx, y = cy\<rparr>
              \<notin> set (segments (long_state\<lparr>snake_length := snake_length g'\<rparr>))) \<longrightarrow>
        value (food g') = 10
        \<and> position (food g') \<notin> set (segments (long_state\<lparr>snake_length := snake_length g'\<rparr>))
        \<and> 0 \<le> x (position (food g')) \<and> x (position (food g')) < width long_state
        \<and> 0 \<le> y (position (food g')) \<and> y (position (food g')) < height long_state"
    by blast
  have vals: "score long_state = 970" "value (food long_state) = 10"
    "snake_length long_state = 100"
    by (simp_all add: long_state_def)
  with g' have n: "score g' = 980" "snake_length g' = 100"
    by (simp_all add: MAX_SNAKE_LENGTH_def)
  have seg: "segments (long_state\<lparr>snake_length := snake_length g'\<rparr>) = snake long_state"
    by (simp add: n segments_def long_state_def)
  have "\<lparr>x = 0, y = 0\<rparr> \<notin> set (snake long_state)"
    by (auto simp: long_state_def)
  then have "\<exists>cx cy. 0 \<le> cx \<and> cx < width long_state \<and> 0 \<le> cy \<and> cy < height long_state
          \<and> \<lparr>x = cx, y = cy\<rparr>
              \<notin> set (segments (long_state\<lparr>snake_length := snake_length g'\<rparr>))"
    unfolding seg by (intro exI [of _ 0] conjI) (simp_all add: long_state_def)
  with free have "value (food g') = 10" "position (food g') \<notin> set (snake long_state)"
    by (simp_all add: seg)
  with g' n show ?thesis
    by (intro exI [of _ g']) simp
qed

text \<open>
  C5 as stated promises a new food item and the sum as the score, in every state. On the
  board of \<open>tiny_state\<close> the head eats (the length grows from 3 to 4, the score by 7), the
  array slot that joins the snake names the one cell that was free, \<open>spawn_food\<close> finds no
  free cell, and the old food, of value 7, stays where it is. With a score of 2147483640
  the sum with the food's value 10 is no \<^verbatim>\<open>int\<close>, and the score after the tick is
  -2147483646.
\<close>

theorem update_game_eats_food_counterexample:
  "\<not> game_over tiny_state
   \<and> get_new_position (snake tiny_state ! 0) (direction tiny_state) (width tiny_state)
        (height tiny_state) = Inr \<lparr>x = 1, y = 0\<rparr>
   \<and> check_self_collision (Some tiny_state) \<lparr>x = 1, y = 0\<rparr> = Inr False
   \<and> is_food_position (Some tiny_state) \<lparr>x = 1, y = 0\<rparr>
   \<and> update_game ex_rs (Some tiny_state) = Inr (True, Some tiny_after)
   \<and> food tiny_state = \<lparr>position = \<lparr>x = 1, y = 0\<rparr>, value = 7\<rparr>
   \<and> food tiny_after = \<lparr>position = \<lparr>x = 1, y = 0\<rparr>, value = 7\<rparr>
   \<and> score (start_state\<lparr>score := 2147483640\<rparr>) + value (food (start_state\<lparr>score := 2147483640\<rparr>))
        = 2147483650
   \<and> update_game ex_rs (Some (start_state\<lparr>score := 2147483640\<rparr>))
        = Inr (True, Some (fed_state\<lparr>score := - 2147483646\<rparr>))"
proof -
  have "get_new_position (snake tiny_state ! 0) (direction tiny_state) (width tiny_state)
        (height tiny_state) = Inr \<lparr>x = 1, y = 0\<rparr>"
    by code_simp
  moreover have "check_self_collision (Some tiny_state) \<lparr>x = 1, y = 0\<rparr> = Inr False"
    by code_simp
  ultimately show ?thesis
    using update_tiny update_overflow
    by (simp add: tiny_state_def tiny_after_def start_state_def is_food_position_def)
qed

text \<open>
  C6. On a grid of width and height at least 1, \<open>spawn_food\<close> does what the
  specification describes: the first free one of up to 100 random candidates, otherwise the
  first free cell in row-major order, otherwise nothing. So when a free cell exists the food
  lands on a cell of the grid that no segment occupies, with value 10; when every cell is
  occupied the state is unchanged; and when the food changed, its value is 10.
\<close>

theorem spawn_food_places_on_free_cell:
  assumes "1 \<le> width g" and "1 \<le> height g"
    and "snake_length g \<le> int (length (snake g))"
  shows "spawn_food rs (Some g) = Inr (Some (spawn_food_spec rs g))
    \<and> ((\<exists>cx cy. 0 \<le> cx \<and> cx < width g \<and> 0 \<le> cy \<and> cy < height g
                 \<and> \<lparr>x = cx, y = cy\<rparr> \<notin> set (segments g)) \<longrightarrow>
         position (food (spawn_food_spec rs g)) \<notin> set (segments g)
         \<and> 0 \<le> x (position (food (spawn_food_spec rs g)))
         \<and> x (position (food (spawn_food_spec rs g))) < width g
         \<and> 0 \<le> y (position (food (spawn_food_spec rs g)))
         \<and> y (position (food (spawn_food_spec rs g))) < height g
         \<and> value (food (spawn_food_spec rs g)) = 10)
    \<and> ((\<forall>cx cy. 0 \<le> cx \<and> cx < width g \<and> 0 \<le> cy \<and> cy < height g \<longrightarrow>
                 \<lparr>x = cx, y = cy\<rparr> \<in> set (segments g)) \<longrightarrow>
         spawn_food_spec rs g = g)
    \<and> (spawn_food_spec rs g = g \<or> value (food (spawn_food_spec rs g)) = 10)"
proof (intro conjI impI)
  show "spawn_food rs (Some g) = Inr (Some (spawn_food_spec rs g))"
    using assms by (rule spawn_food_refines)
next
  assume free: "\<exists>cx cy. 0 \<le> cx \<and> cx < width g \<and> 0 \<le> cy \<and> cy < height g
                 \<and> \<lparr>x = cx, y = cy\<rparr> \<notin> set (segments g)"
  from spawn_food_spec_free [OF assms(1,2) free, of rs]
  show "position (food (spawn_food_spec rs g)) \<notin> set (segments g)"
    and "0 \<le> x (position (food (spawn_food_spec rs g)))"
    and "x (position (food (spawn_food_spec rs g))) < width g"
    and "0 \<le> y (position (food (spawn_food_spec rs g)))"
    and "y (position (food (spawn_food_spec rs g))) < height g"
    and "value (food (spawn_food_spec rs g)) = 10"
    by simp_all
next
  assume "\<forall>cx cy. 0 \<le> cx \<and> cx < width g \<and> 0 \<le> cy \<and> cy < height g \<longrightarrow>
                 \<lparr>x = cx, y = cy\<rparr> \<in> set (segments g)"
  with assms(1,2) show "spawn_food_spec rs g = g"
    by (rule spawn_food_spec_full)
next
  show "spawn_food_spec rs g = g \<or> value (food (spawn_food_spec rs g)) = 10"
    by (simp add: spawn_food_spec_def place_food_def split: option.splits)
qed

text \<open>
  Two instances: a board with no free cell, where nothing changes, and the 10 by 10 board
  of \<open>start_state\<close>, where the first candidate (6,5) is free.
\<close>

theorem spawn_food_places_on_free_cell_witness:
  "spawn_food ex_rs (Some packed_state) = Inr (Some packed_state)
   \<and> spawn_food ex_rs (Some (start_state\<lparr>food := \<lparr>position = \<lparr>x = 0, y = 0\<rparr>, value = 0\<rparr>\<rparr>))
       = Inr (Some start_state)
   \<and> position (food start_state) \<notin> set (segments start_state)"
proof -
  let ?s = "start_state\<lparr>food := \<lparr>position = \<lparr>x = 0, y = 0\<rparr>, value = 0\<rparr>\<rparr>"
  have p: "1 \<le> width packed_state" "1 \<le> height packed_state"
    "snake_length packed_state \<le> int (length (snake packed_state))"
    by (simp_all add: packed_state_def)
  have full: "\<forall>cx cy. 0 \<le> cx \<and> cx < width packed_state \<and> 0 \<le> cy \<and> cy < height packed_state \<longrightarrow>
      \<lparr>x = cx, y = cy\<rparr> \<in> set (segments packed_state)"
  proof (intro allI impI)
    fix cx cy :: int
    assume "0 \<le> cx \<and> cx < width packed_state \<and> 0 \<le> cy \<and> cy < height packed_state"
    then have "cy = 0" "cx = 0 \<or> cx = 1"
      by (auto simp: packed_state_def)
    then show "\<lparr>x = cx, y = cy\<rparr> \<in> set (segments packed_state)"
      by (auto simp: packed_state_def segments_def)
  qed
  have s: "1 \<le> width ?s" "1 \<le> height ?s" "snake_length ?s \<le> int (length (snake ?s))"
    by (simp_all add: start_state_def)
  have "spawn_food_spec ex_rs ?s = start_state"
    by code_simp
  moreover have "position (food start_state) \<notin> set (segments start_state)"
    by (simp add: start_state_def segments_def)
  ultimately show ?thesis
    using spawn_food_places_on_free_cell [OF p, of ex_rs]
      spawn_food_places_on_free_cell [OF s, of ex_rs] full
    by simp
qed

text \<open>
  C7, as the code has it. On a grid whose width and height are \<^verbatim>\<open>int\<close> values of at least
  1, with the head inside the grid, the new position wraps: Right from \<open>w - 1\<close> gives 0 and
  Down from \<open>h - 1\<close> gives 0; Left from 0 gives \<open>w - 1\<close> and Up from 0 gives \<open>h - 1\<close>
  when the sum the code forms, \<open>x - 1 + w\<close> or \<open>y - 1 + h\<close>, is at most \<open>INT_MAX\<close>, as
  it is for every head on a grid of at most \<open>2^30\<close> columns and rows; otherwise the
  coordinate moves by one, and the other coordinate stays.
\<close>

theorem get_new_position_wraps:
  assumes "1 \<le> w" and "w \<le> INT_MAX" and "1 \<le> h" and "h \<le> INT_MAX"
    and "0 \<le> x p" and "x p < w" and "0 \<le> y p" and "y p < h"
  shows "get_new_position p RIGHT w h = Inr (p\<lparr>x := (if x p = w - 1 then 0 else x p + 1)\<rparr>)
    \<and> get_new_position p DOWN w h = Inr (p\<lparr>y := (if y p = h - 1 then 0 else y p + 1)\<rparr>)
    \<and> (x p - 1 + w \<le> INT_MAX \<longrightarrow>
         get_new_position p LEFT w h = Inr (p\<lparr>x := (if x p = 0 then w - 1 else x p - 1)\<rparr>))
    \<and> (y p - 1 + h \<le> INT_MAX \<longrightarrow>
         get_new_position p UP w h = Inr (p\<lparr>y := (if y p = 0 then h - 1 else y p - 1)\<rparr>))"
proof (intro conjI impI)
  have r: "(x p + 1) mod w = (if x p = w - 1 then 0 else x p + 1)"
    using assms by (auto simp: mod_pos_pos_trivial)
  have "c_add (x p) 1 = x p + 1"
    using assms by (simp add: c_add_def wrap_int_id INT_MIN_def)
  moreover have "c_rem (x p + 1) w = Inr ((x p + 1) mod w)"
    using assms by (simp add: c_rem_pos)
  ultimately show "get_new_position p RIGHT w h
      = Inr (p\<lparr>x := (if x p = w - 1 then 0 else x p + 1)\<rparr>)"
    by (simp only: get_new_position.simps r sum.case)
next
  have d: "(y p + 1) mod h = (if y p = h - 1 then 0 else y p + 1)"
    using assms by (auto simp: mod_pos_pos_trivial)
  have "c_add (y p) 1 = y p + 1"
    using assms by (simp add: c_add_def wrap_int_id INT_MIN_def)
  moreover have "c_rem (y p + 1) h = Inr ((y p + 1) mod h)"
    using assms by (simp add: c_rem_pos)
  ultimately show "get_new_position p DOWN w h
      = Inr (p\<lparr>y := (if y p = h - 1 then 0 else y p + 1)\<rparr>)"
    by (simp only: get_new_position.simps d sum.case)
next
  assume fits: "x p - 1 + w \<le> INT_MAX"
  have l: "(x p - 1 + w) mod w = (if x p = 0 then w - 1 else x p - 1)"
    using assms by (auto simp: mod_pos_pos_trivial zmod_minus1)
  have "c_sub (x p) 1 = x p - 1"
    using assms by (simp add: c_sub_def wrap_int_id INT_MIN_def)
  moreover have "c_add (x p - 1) w = x p - 1 + w"
    using assms fits by (simp add: c_add_def wrap_int_id INT_MIN_def)
  moreover have "c_rem (x p - 1 + w) w = Inr ((x p - 1 + w) mod w)"
    using assms by (simp add: c_rem_pos)
  ultimately show "get_new_position p LEFT w h
      = Inr (p\<lparr>x := (if x p = 0 then w - 1 else x p - 1)\<rparr>)"
    by (simp only: get_new_position.simps l sum.case)
next
  assume fits: "y p - 1 + h \<le> INT_MAX"
  have u: "(y p - 1 + h) mod h = (if y p = 0 then h - 1 else y p - 1)"
    using assms by (auto simp: mod_pos_pos_trivial zmod_minus1)
  have "c_sub (y p) 1 = y p - 1"
    using assms by (simp add: c_sub_def wrap_int_id INT_MIN_def)
  moreover have "c_add (y p - 1) h = y p - 1 + h"
    using assms fits by (simp add: c_add_def wrap_int_id INT_MIN_def)
  moreover have "c_rem (y p - 1 + h) h = Inr ((y p - 1 + h) mod h)"
    using assms by (simp add: c_rem_pos)
  ultimately show "get_new_position p UP w h
      = Inr (p\<lparr>y := (if y p = 0 then h - 1 else y p - 1)\<rparr>)"
    by (simp only: get_new_position.simps u sum.case)
qed

theorem get_new_position_wraps_witness:
  "get_new_position \<lparr>x = 4, y = 0\<rparr> RIGHT 5 3 = Inr \<lparr>x = 0, y = 0\<rparr>
   \<and> get_new_position \<lparr>x = 4, y = 0\<rparr> DOWN 5 3 = Inr \<lparr>x = 4, y = 1\<rparr>
   \<and> get_new_position \<lparr>x = 4, y = 0\<rparr> LEFT 5 3 = Inr \<lparr>x = 3, y = 0\<rparr>
   \<and> get_new_position \<lparr>x = 4, y = 0\<rparr> UP 5 3 = Inr \<lparr>x = 4, y = 2\<rparr>"
  using get_new_position_wraps [of 5 3 "\<lparr>x = 4, y = 0\<rparr>"] by (simp add: INT_MAX_def)

text \<open>
  C7 as stated holds for every width. On a grid of width 2147483647 the head that
  \<^verbatim>\<open>initialize_game\<close> places at x = 1073741823 is at (1073741823, 4) after one tick Up;
  moving Left, the sum \<open>x - 1 + w\<close> is 3221225469, no \<^verbatim>\<open>int\<close>, and the new x is
  -1073741827 instead of 1073741822. So it is for the head at x = 5, where the new x is
  -2147483645 instead of 4.
\<close>

theorem get_new_position_wraps_counterexample:
  "get_new_position \<lparr>x = 1073741823, y = 4\<rparr> LEFT 2147483647 10
     = Inr \<lparr>x = - 1073741827, y = 4\<rparr>
   \<and> get_new_position \<lparr>x = 5, y = 0\<rparr> LEFT 2147483647 10 = Inr \<lparr>x = - 2147483645, y = 0\<rparr>"
  by code_simp

text \<open>
  C8. \<open>set_direction\<close> leaves the state as it is when the new direction is the opposite
  of the current one, and otherwise stores the new direction; the value of \<open>game_over\<close>
  plays no part.
\<close>

theorem set_direction_rejects_reversal:
  "set_direction (Some g) d =
     Some (if d = opposite (direction g) then g else g\<lparr>direction := d\<rparr>)
   \<and> set_direction (Some (g\<lparr>game_over := b\<rparr>)) d =
     map_option (\<lambda>s. s\<lparr>game_over := b\<rparr>) (set_direction (Some g) d)"
  by (cases "direction g"; cases d) (simp_all add: set_direction_def)

text \<open>
  C9. When \<open>game_over\<close> is set, \<open>update_game\<close> returns false and the state is as
  before, and so it is after any sequence of calls of \<open>update_game\<close>. The flag also
  stays set through \<open>set_direction\<close> and \<open>spawn_food\<close>; \<open>reset_game\<close> and
  \<open>initialize_game\<close> (on a grid of at least one cell) return a state in which it is
  clear.
\<close>

theorem game_over_is_absorbing:
  assumes "game_over g"
  shows "update_game rs (Some g) = Inr (False, Some g)
    \<and> update_seq rss (Some g) = Inr (Some g)
    \<and> is_game_over (set_direction (Some g) d)
    \<and> (1 \<le> width g \<and> 1 \<le> height g \<and> snake_length g \<le> int (length (snake g)) \<longrightarrow>
         (\<exists>g'. spawn_food rs (Some g) = Inr (Some g') \<and> game_over g'))
    \<and> (1 \<le> width g \<and> 1 \<le> height g \<and> length (snake g) = nat MAX_SNAKE_LENGTH \<longrightarrow>
         (\<exists>g'. reset_game rs (Some g) = Inr (Some g') \<and> \<not> game_over g'))
    \<and> (1 \<le> w \<and> 1 \<le> h \<and> length (snake g) = nat MAX_SNAKE_LENGTH \<longrightarrow>
         (\<exists>g'. initialize_game rs (Some g) w h = Inr (Some g') \<and> \<not> game_over g'))"
proof (intro conjI impI)
  show "update_game rs (Some g) = Inr (False, Some g)"
    using assms by (simp add: update_game_def)
  show "update_seq rss (Some g) = Inr (Some g)"
    using assms by (rule update_seq_over)
  show "is_game_over (set_direction (Some g) d)"
    using assms by (simp add: set_direction_def is_game_over_def)
next
  assume "1 \<le> width g \<and> 1 \<le> height g \<and> snake_length g \<le> int (length (snake g))"
  then have "spawn_food rs (Some g) = Inr (Some (spawn_food_spec rs g))"
    by (intro spawn_food_refines) simp_all
  with assms show "\<exists>g'. spawn_food rs (Some g) = Inr (Some g') \<and> game_over g'"
    by (simp add: spawn_food_spec_frame)
next
  assume "1 \<le> width g \<and> 1 \<le> height g \<and> length (snake g) = nat MAX_SNAKE_LENGTH"
  then have "3 \<le> length (snake g)" "1 \<le> width g" "1 \<le> height g"
    by (simp_all add: MAX_SNAKE_LENGTH_def)
  from initialize_game_returns [OF this, of rs]
  show "\<exists>g'. reset_game rs (Some g) = Inr (Some g') \<and> \<not> game_over g'"
    by (auto simp: reset_game_def)
next
  assume "1 \<le> w \<and> 1 \<le> h \<and> length (snake g) = nat MAX_SNAKE_LENGTH"
  then have "3 \<le> length (snake g)" "1 \<le> w" "1 \<le> h"
    by (simp_all add: MAX_SNAKE_LENGTH_def)
  from initialize_game_returns [OF this, of rs]
  show "\<exists>g'. initialize_game rs (Some g) w h = Inr (Some g') \<and> \<not> game_over g'"
    by auto
qed

theorem game_over_is_absorbing_witness:
  "game_over (start_state\<lparr>game_over := True\<rparr>)
   \<and> update_game ex_rs (Some (start_state\<lparr>game_over := True\<rparr>))
       = Inr (False, Some (start_state\<lparr>game_over := True\<rparr>))
   \<and> update_seq [ex_rs, ex_rs, ex_rs] (Some (start_state\<lparr>game_over := True\<rparr>))
       = Inr (Some (start_state\<lparr>game_over := True\<rparr>))
   \<and> is_game_over (set_direction (Some (start_state\<lparr>game_over := True\<rparr>)) UP)
   \<and> (\<exists>g'. spawn_food ex_rs (Some (start_state\<lparr>game_over := True\<rparr>)) = Inr (Some g')
          \<and> game_over g')
   \<and> (\<exists>g'. reset_game ex_rs (Some (start_state\<lparr>game_over := True\<rparr>)) = Inr (Some g')
          \<and> \<not> game_over g')
   \<and> (\<exists>g'. initialize_game ex_rs (Some (start_state\<lparr>game_over := True\<rparr>)) 10 10 = Inr (Some g')
          \<and> \<not> game_over g')"
proof -
  have "game_over (start_state\<lparr>game_over := True\<rparr>)"
    by simp
  moreover have "length (snake (start_state\<lparr>game_over := True\<rparr>)) = nat MAX_SNAKE_LENGTH"
    "1 \<le> width (start_state\<lparr>game_over := True\<rparr>)" "1 \<le> height (start_state\<lparr>game_over := True\<rparr>)"
    "snake_length (start_state\<lparr>game_over := True\<rparr>)
       \<le> int (length (snake (start_state\<lparr>game_over := True\<rparr>)))"
    by (simp_all add: start_state_def MAX_SNAKE_LENGTH_def)
  ultimately show ?thesis
    using game_over_is_absorbing [of "start_state\<lparr>game_over := True\<rparr>" ex_rs "[ex_rs, ex_rs, ex_rs]" UP 10 10]
    by simp
qed

text \<open>
  C10. In a state that is not game over, with \<open>snake_length\<close> from 1 to
  \<open>MAX_SNAKE_LENGTH - 1\<close>, when the new head is the food position and hits no body
  segment, the snake after \<open>update_game\<close> is the new head followed by all the segments
  it had: the length is one more, the last segment is on the cell of the old tail, the
  segment at index \<open>i + 1\<close> is where the segment at index \<open>i\<close> was, and the head is on
  the new head cell.
\<close>

theorem update_game_grows_at_tail:
  assumes "\<not> game_over g"
    and "length (snake g) = nat MAX_SNAKE_LENGTH"
    and "1 \<le> snake_length g" and "snake_length g < MAX_SNAKE_LENGTH"
    and "1 \<le> width g" and "1 \<le> height g"
    and "get_new_position (snake g ! 0) (direction g) (width g) (height g) = Inr new_head"
    and "check_self_collision (Some g) new_head = Inr False"
    and "is_food_position (Some g) new_head"
  shows "\<exists>g'. update_game rs (Some g) = Inr (True, Some g')
      \<and> snake_length g' = snake_length g + 1
      \<and> segments g' = new_head # segments g
      \<and> get_snake_segment (Some g') (snake_length g' - 1)
          = get_snake_segment (Some g) (snake_length g - 1)
      \<and> get_snake_segment (Some g') 0 = Inr new_head
      \<and> (\<forall>i. 0 \<le> i \<and> i < snake_length g \<longrightarrow>
            get_snake_segment (Some g') (i + 1) = get_snake_segment (Some g) i)"
proof -
  let ?gs = "spawn_food_spec rs (eaten_state g)"
  let ?n = "nat (snake_length g)"
  let ?a = "new_head # take ?n (snake g) @ drop (Suc ?n) (snake g)"
  have ne: "snake g \<noteq> []"
    using assms(2) by (auto simp: MAX_SNAKE_LENGTH_def)
  have fp: "position (food g) = new_head"
    using assms(9) by (simp add: is_food_position_def point_eq_iff)
  have sp: "spawn_food rs (Some (eaten_state g)) = Inr (Some ?gs)"
    using assms(2,4,5,6) by (intro spawn_food_eaten) simp_all
  have sp': "(if position (food g) = new_head then spawn_food rs (Some (eaten_state g))
          else Inr (Some g)) = Inr (Some ?gs)"
    using fp sp by simp
  have sl: "snake_length ?gs = snake_length g + 1" and sn: "snake ?gs = snake g"
    using assms(4) by (simp_all add: spawn_food_spec_frame eaten_state_def)
  have len: "snake_length ?gs \<le> int (length (snake ?gs))" and pos: "1 \<le> snake_length ?gs"
    using assms(2,3,4) by (auto simp: sl sn MAX_SNAKE_LENGTH_def)
  from move_snake [OF pos len, of new_head] obtain a where
    mv: "shift_body (snake ?gs) (snake_length ?gs - 1) = Inr a"
      "arr_write a 0 new_head = Inr (new_head # take (nat (snake_length ?gs) - 1) (snake ?gs)
          @ drop (nat (snake_length ?gs)) (snake ?gs))"
    by blast
  have idx: "nat (snake_length ?gs) - 1 = ?n" "nat (snake_length ?gs) = Suc ?n"
    using assms(3) by (simp_all add: sl)
  have upd: "update_game rs (Some g) = Inr (True, Some (?gs\<lparr>snake := ?a\<rparr>))"
    using update_game_moves [OF assms(1) ne assms(7,8) sp' mv] by (simp add: idx sn)
  have n_le: "?n < length (snake g)" "nat (snake_length g + 1) = Suc ?n"
    using assms(2,3,4) by (simp_all add: MAX_SNAKE_LENGTH_def)
  have seg: "segments (?gs\<lparr>snake := ?a\<rparr>) = new_head # segments g"
    using n_le by (simp add: segments_def sl)
  have nth_a: "?a ! Suc k = snake g ! k" if "k < ?n" for k
    using that n_le by (simp add: nth_append)
  show ?thesis
  proof (intro exI conjI allI impI)
    show "update_game rs (Some g) = Inr (True, Some (?gs\<lparr>snake := ?a\<rparr>))"
      by (fact upd)
    show "snake_length (?gs\<lparr>snake := ?a\<rparr>) = snake_length g + 1"
      by (simp add: sl)
    show "segments (?gs\<lparr>snake := ?a\<rparr>) = new_head # segments g"
      by (fact seg)
    show "get_snake_segment (Some (?gs\<lparr>snake := ?a\<rparr>)) 0 = Inr new_head"
      using assms(3) by (simp add: get_snake_segment_def sl arr_read_def)
    show "get_snake_segment (Some (?gs\<lparr>snake := ?a\<rparr>)) (i + 1) = get_snake_segment (Some g) i"
      if "0 \<le> i \<and> i < snake_length g" for i
    proof -
      have "nat i < ?n" "nat (i + 1) = Suc (nat i)" "nat i < length (snake g)"
        using that n_le(1) by auto
      moreover have "i + 1 < int (length (snake g))" "i < int (length (snake g))"
        using that assms(2,4) by (auto simp: MAX_SNAKE_LENGTH_def)
      ultimately show ?thesis
        using that nth_a [of "nat i"] n_le
        by (simp add: get_snake_segment_def sl arr_read_def)
    qed
    from this [of "snake_length g - 1"] assms(3)
    show "get_snake_segment (Some (?gs\<lparr>snake := ?a\<rparr>)) (snake_length (?gs\<lparr>snake := ?a\<rparr>) - 1)
          = get_snake_segment (Some g) (snake_length g - 1)"
      by (simp add: sl)
  qed
qed

theorem update_game_grows_at_tail_witness:
  "\<exists>g'. update_game ex_rs (Some start_state) = Inr (True, Some g')
      \<and> snake_length g' = 4
      \<and> segments g' = [\<lparr>x = 6, y = 5\<rparr>, \<lparr>x = 5, y = 5\<rparr>, \<lparr>x = 4, y = 5\<rparr>, \<lparr>x = 3, y = 5\<rparr>]
      \<and> get_snake_segment (Some g') 3 = Inr \<lparr>x = 3, y = 5\<rparr>"
proof -
  from update_game_grows_at_tail [OF start_hyps(1-7) start_no_collision start_hyps(8), of ex_rs]
  obtain g' where g': "update_game ex_rs (Some start_state) = Inr (True, Some g')"
    "snake_length g' = snake_length start_state + 1"
    "segments g' = \<lparr>x = 6, y = 5\<rparr> # segments start_state"
    "get_snake_segment (Some g') (snake_length g' - 1)
       = get_snake_segment (Some start_state) (snake_length start_state - 1)"
    by blast
  have "snake_length start_state = 3"
    "segments start_state = [\<lparr>x = 5, y = 5\<rparr>, \<lparr>x = 4, y = 5\<rparr>, \<lparr>x = 3, y = 5\<rparr>]"
    "get_snake_segment (Some start_state) 2 = Inr \<lparr>x = 3, y = 5\<rparr>"
    by (simp_all add: start_state_def segments_def get_snake_segment_def arr_read_def)
  with g' show ?thesis
    by (intro exI [of _ g']) simp
qed

end
